theory Spec2Isabelle
  imports Complex_Main "HOL-Library.Word" "HOL-Library.AList"
begin

unbundle bit_operations_syntax

section \<open>JavaScript primitives used by index.js\<close>

text \<open>
  Text records are strings of code units below 256 (\<^typ>\<open>string\<close>); the output of
  \<open>hexDecode\<close> and the input of \<open>hexEncode\<close> are lists of UTF-16 code units
  (\<^typ>\<open>nat list\<close>), since \<open>String.fromCharCode\<close> can produce any of them.
  A JavaScript number is the real that the double stands for, or \<open>None\<close> for
  \<open>NaN\<close>; the integers that \<open>parseInt\<close> returns are kept as \<^typ>\<open>int option\<close>.
  The arithmetic of \<open>calculateTemperature\<close> and \<open>calculateHumidity\<close> rounds every
  result to the nearest double (\<open>fl\<close>). A number that goes into a message is written
  as the decimal it prints as: \<open>n / 100\<close> for the result of \<open>roundTo\<close> to two
  decimals, \<open>b / 10\<close> for the battery.
\<close>

definition substring :: "string \<Rightarrow> nat \<Rightarrow> nat \<Rightarrow> string" where
  \<comment> \<open>\<open>s.substring(a, b)\<close>: the arguments are swapped when \<open>a > b\<close>, and clamped to the length.\<close>
  "substring s a b = take (max a b - min a b) (drop (min a b) s)"

definition substringFrom :: "string \<Rightarrow> nat \<Rightarrow> string" where
  \<comment> \<open>\<open>s.substring(a)\<close>\<close>
  "substringFrom s a = drop a s"

definition startsWith :: "string \<Rightarrow> string \<Rightarrow> bool" where
  "startsWith s p = (take (length p) s = p)"

definition toLowerCase :: "string \<Rightarrow> string" where
  \<comment> \<open>On code units below 256: A-Z, and the Latin-1 capitals except the multiplication sign.\<close>
  "toLowerCase s =
     map (\<lambda>c. let n = of_char c :: nat in
                if (65 \<le> n \<and> n \<le> 90) \<or> (192 \<le> n \<and> n \<le> 222 \<and> n \<noteq> 215)
                then char_of (n + 32) else c) s"

definition isWhiteSpace :: "char \<Rightarrow> bool" where
  "isWhiteSpace c = (of_char c \<in> {9, 10, 11, 12, 13, 32, 160 :: nat})"

definition hexDigitValue :: "char \<Rightarrow> nat option" where
  "hexDigitValue c =
     (let n = of_char c :: nat in
      if 48 \<le> n \<and> n \<le> 57 then Some (n - 48)
      else if 97 \<le> n \<and> n \<le> 102 then Some (n - 87)
      else if 65 \<le> n \<and> n \<le> 70 then Some (n - 55)
      else None)"

fun hexDigits :: "string \<Rightarrow> nat list" where
  \<comment> \<open>the values of the longest prefix of hexadecimal digits\<close>
  "hexDigits [] = []"
| "hexDigits (c # cs) = (case hexDigitValue c of None \<Rightarrow> [] | Some d \<Rightarrow> d # hexDigits cs)"

definition parseInt16 :: "string \<Rightarrow> int option" where
  \<comment> \<open>\<open>parseInt(s, 16)\<close>: leading white space, a sign, an optional \<open>0x\<close>, then the longest
      run of hexadecimal digits; \<open>NaN\<close> when that run is empty.\<close>
  "parseInt16 s =
     (let t = dropWhile isWhiteSpace s;
          neg = (t \<noteq> [] \<and> hd t = CHR ''-'');
          u = (if t \<noteq> [] \<and> (hd t = CHR ''+'' \<or> hd t = CHR ''-'') then tl t else t);
          v = (if startsWith u ''0x'' \<or> startsWith u ''0X'' then drop 2 u else u);
          ds = hexDigits v
      in if ds = [] then None
         else Some ((if neg then - 1 else 1) * int (foldl (\<lambda>a d. 16 * a + d) 0 ds)))"

definition ToInt32 :: "int option \<Rightarrow> 32 word" where
  \<comment> \<open>the operand conversion of the bitwise operators; \<open>NaN\<close> becomes 0\<close>
  "ToInt32 x = (case x of None \<Rightarrow> 0 | Some i \<Rightarrow> word_of_int i)"

definition fromCharCode :: "int option \<Rightarrow> nat" where
  \<comment> \<open>\<open>String.fromCharCode\<close>: the code unit is the argument modulo 65536, 0 for \<open>NaN\<close>\<close>
  "fromCharCode x = (case x of None \<Rightarrow> 0 | Some i \<Rightarrow> nat (i mod 65536))"

definition hexChar :: "nat \<Rightarrow> char" where
  "hexChar d = ''0123456789abcdef'' ! d"

fun toString16 :: "nat \<Rightarrow> string" where
  \<comment> \<open>\<open>n.toString(16)\<close> on a code unit\<close>
  "toString16 n = (if n < 16 then [hexChar n] else toString16 (n div 16) @ [hexChar (n mod 16)])"

fun decimal :: "nat \<Rightarrow> string" where
  "decimal n =
     (if n < 10 then [''0123456789'' ! n] else decimal (n div 10) @ [''0123456789'' ! (n mod 10)])"

definition numberToString :: "int option \<Rightarrow> string" where
  \<comment> \<open>a number inside a template literal; only the results of \<open>parseInt\<close> on two characters
      come here\<close>
  "numberToString x =
     (case x of None \<Rightarrow> ''NaN''
      | Some i \<Rightarrow> if i < 0 then CHR ''-'' # decimal (nat (- i)) else decimal (nat i))"

definition num :: "int option \<Rightarrow> real option" where
  "num x = map_option real_of_int x"

definition Math_round :: "real option \<Rightarrow> real option" where
  "Math_round x = map_option (\<lambda>r. real_of_int \<lfloor>r + 1 / 2\<rfloor>) x"

definition Math_pow :: "real option \<Rightarrow> real option \<Rightarrow> real option" where
  \<comment> \<open>\<open>Math.pow\<close> has no infinite result in the one place where the gateway calls it:
      the exponent there is positive.\<close>
  "Math_pow x y =
     (case y of None \<Rightarrow> None
      | Some b \<Rightarrow>
          if b = 0 then Some 1
          else (case x of None \<Rightarrow> None
                | Some a \<Rightarrow>
                    if a < 0 then (if b \<in> \<int> then Some (a powi \<lfloor>b\<rfloor>) else None)
                    else Some (a powr b)))"

definition roundEven :: "real \<Rightarrow> int" where
  \<comment> \<open>to the nearest integer, a tie to the even one\<close>
  "roundEven y =
     (let n = \<lfloor>y\<rfloor>
      in if y - of_int n < 1 / 2 then n
         else if 1 / 2 < y - of_int n then n + 1
         else if even n then n else n + 1)"

primrec exponentFrom :: "nat \<Rightarrow> int \<Rightarrow> real \<Rightarrow> int" where
  \<comment> \<open>the largest exponent \<open>e'\<close> from \<open>e\<close> downwards with \<open>2 ^ e' \<le> a\<close>, and \<open>e - n\<close>
      when the \<open>n\<close> exponents above it are all too large\<close>
  "exponentFrom 0 e a = e"
| "exponentFrom (Suc n) e a = (if 2 powi e \<le> a then e else exponentFrom n (e - 1) a)"

definition fl :: "real \<Rightarrow> real" where
  \<comment> \<open>The double nearest to a real: round to nearest, ties to even, with a significand of
      53 bits and an exponent from -1022 to 1023 (the subnormal numbers and zero have
      the exponent -1022). Overflow to \<open>Infinity\<close> is left out: no value of the gateway
      comes near \<open>2 ^ 1024\<close>.\<close>
  "fl x =
     (let u = 2 powi (exponentFrom 2045 1023 \<bar>x\<bar> - 52)
      in of_int (roundEven (x / u)) * u)"

definition d_add :: "real \<Rightarrow> real \<Rightarrow> real" where
  \<comment> \<open>\<open>x + y\<close> on doubles\<close>
  "d_add x y = fl (x + y)"

definition d_mul :: "real \<Rightarrow> real \<Rightarrow> real" where
  \<comment> \<open>\<open>x * y\<close> on doubles\<close>
  "d_mul x y = fl (x * y)"

definition d_div :: "real \<Rightarrow> real \<Rightarrow> real" where
  \<comment> \<open>\<open>x / y\<close> on doubles\<close>
  "d_div x y = fl (x / y)"

definition roundTo :: "real option \<Rightarrow> nat \<Rightarrow> real option" where
  \<comment> \<open>Modelled from the spec: \<open>roundTo\<close> comes from the package round-to, which is not among
      the sources; the spec writes it \<open>round2\<close> and \<open>round0\<close>, rounding to that many
      decimals. A tie goes up, as with \<open>Math.round\<close>. The argument is the value of the
      double; the result is the decimal that the returned double prints as.\<close>
  "roundTo x precision =
     map_option (\<lambda>r. real_of_int \<lfloor>r * 10 ^ precision + 1 / 2\<rfloor> / 10 ^ precision) x"

section \<open>Constants of the gateway object\<close>

definition MESSAGE_TYPES :: "string \<Rightarrow> string option" where
  "MESSAGE_TYPES = map_of
     [(''30'', ''tempHumidity''), (''31'', ''switch''), (''32'', ''motion''),
      (''36'', ''rs485Request''), (''37'', ''rs485Response''), (''38'', ''rs485ChunkRequest''),
      (''39'', ''rs485ChunkResponse''), (''42'', ''rs485ChunkEnvelopeResponse''),
      (''44'', ''moisture''), (''45'', ''tempHumidityLight''), (''46'', ''tempHumidityAdc''),
      (''60'', ''boot''), (''61'', ''text''), (''70'', ''rs485Config'')]"

definition BROADCAST_MESSAGE_TYPES :: "string list" where
  "BROADCAST_MESSAGE_TYPES =
     [''30'', ''31'', ''32'', ''37'', ''39'', ''42'', ''44'', ''45'', ''46'', ''60'', ''61'']"

definition IGNORABLE_MESSAGE_TYPES :: "string list" where
  "IGNORABLE_MESSAGE_TYPES = [''33'', ''34'', ''35'']"

definition isBroadcastMessageType :: "string \<Rightarrow> bool" where
  "isBroadcastMessageType messageType = (messageType \<in> set BROADCAST_MESSAGE_TYPES)"

section \<open>Configuration\<close>

text \<open>
  The options object after \<open>runGateway\<close> has filled in its defaults; each field is the
  truth value that the code tests (an option that was not given is \<open>undefined\<close>, which
  counts as false).
\<close>

record params =
  sendAdcWithLux :: bool
  sendRawData :: bool
  sendRawLux :: bool
  sendBootMessages :: bool
  sendStatusMessages :: bool
  sendDecodedPayload :: bool
  sendEventCount :: bool
  useFahrenheitTemps :: bool
  useMillisecondTimestamps :: bool
  switchOpenValue :: bool
  deDuplicateBursts :: bool
  decodeTextMessages :: bool
  debugMode :: bool
  sendHopData :: bool

definition defaultParams :: params where
  \<comment> \<open>\<open>runGateway\<close> called with \<open>onSensorMessage\<close> alone, as the basic example does\<close>
  "defaultParams =
     \<lparr>sendAdcWithLux = False, sendRawData = False, sendRawLux = False,
      sendBootMessages = True, sendStatusMessages = False, sendDecodedPayload = True,
      sendEventCount = False, useFahrenheitTemps = False, useMillisecondTimestamps = False,
      switchOpenValue = False, deDuplicateBursts = True, decodeTextMessages = True,
      debugMode = False, sendHopData = False\<rparr>"

section \<open>Hex codec\<close>

definition encodedChar :: "nat \<Rightarrow> string" where
  \<comment> \<open>one pass of the loop body of \<open>hexEncode\<close>: the code in base 16, padded to two digits\<close>
  "encodedChar c = (let e = toString16 c in if length e = 1 then ''0'' @ e else e)"

definition hexEncode :: "nat list \<Rightarrow> string" where
  "hexEncode message =
     foldl (\<lambda>encodedMessage c. encodedMessage @ encodedChar c) [] message"

fun hexDecode :: "string \<Rightarrow> nat list" where
  \<comment> \<open>the loop advances by two; each pass decodes \<open>message.substr(n, 2)\<close>\<close>
  "hexDecode [] = []"
| "hexDecode [a] = [fromCharCode (parseInt16 [a])]"
| "hexDecode (a # b # rest) = fromCharCode (parseInt16 [a, b]) # hexDecode rest"

section \<open>Messages\<close>

datatype jsval =
    JUndefined
  | JBool bool
  | JNumber "real option"
  | JString string
  | JUnits "nat list"

type_synonym object = "(string \<times> jsval) list"

definition spread :: "object \<Rightarrow> object \<Rightarrow> object" where
  \<comment> \<open>\<open>{...obj, k1: v1, ...}\<close>: a key that is present keeps its place, a new one goes last\<close>
  "spread obj props = foldl (\<lambda>acc (k, v). AList.update k v acc) obj props"

record message =
  type :: string
  payload :: "object option"
  sensorId :: string
  sequenceNumber :: "int option"
  timestamp :: nat
  numHops :: "int option option"
  maxHops :: "int option option"
  rawData :: "string option"

definition assignPayload :: "(object \<Rightarrow> object) \<Rightarrow> message \<Rightarrow> message" where
  "assignPayload f m = m\<lparr>payload := map_option f (payload m)\<rparr>"

definition setPayload :: "string \<Rightarrow> jsval \<Rightarrow> message \<Rightarrow> message" where
  \<comment> \<open>\<open>message.payload.k = v\<close>\<close>
  "setPayload k v m = assignPayload (AList.update k v) m"

datatype exn = ReferenceError string

datatype drop =
    ExtendedHeader
  | UnsupportedPayloadType
  | IgnorableType
  | UnknownType
  | DuplicateBurst
  | StatusSuppressed
  | BootSuppressed
  | BadConfigLength

text \<open>
  What one call of \<open>parseMessage\<close> does: it calls \<open>onSensorMessage\<close> with a message,
  returns without calling it, or throws.
\<close>

datatype outcome = Delivered message | Dropped drop | Threw exn

section \<open>Temperature and humidity\<close>

definition calculateTemperature :: "params \<Rightarrow> string \<Rightarrow> object" where
  \<comment> \<open>The literals \<open>46.85\<close> and \<open>175.72\<close> are the doubles nearest to them; the Celsius
      value that enters the Fahrenheit conversion is the double that \<open>roundTo\<close> returned.\<close>
  "calculateTemperature p tempRaw =
     (let temperature =
            roundTo (map_option
                       (\<lambda>t. d_add (- fl 46.85)
                              (d_mul (d_div (fl (real_of_int t)) 65536) (fl 175.72)))
                       (parseInt16 tempRaw)) 2
      in if useFahrenheitTemps p
         then [(''temperature'',
                  JNumber (roundTo (map_option (\<lambda>c. d_add (d_mul (fl c) (d_div 9 5)) 32)
                                      temperature) 2)),
               (''temperatureUnit'', JString ''F'')]
         else [(''temperature'', JNumber temperature),
               (''temperatureUnit'', JString ''C'')])"

definition calculateHumidity :: "string \<Rightarrow> real option" where
  "calculateHumidity humidityRaw =
     roundTo (map_option (\<lambda>h. d_add (- 6) (d_mul 125 (d_div (fl (real_of_int h)) 65536)))
                (parseInt16 humidityRaw)) 2"

section \<open>Deduplication cache\<close>

text \<open>
  Modelled from the spec: the cache is the package memory-cache-ttl, which is not among the
  sources. \<open>runGateway\<close> starts it with \<open>ttl: 30, interval: 3, randomize: false\<close>, and the
  spec describes it as a set of keys whose entries expire after 30 seconds, cleaned on a
  fixed cadence and not on access. An entry is a key with the time, in milliseconds, at
  which it expires; \<open>cleanExpired\<close> is the periodic sweep.
\<close>

type_synonym cache = "string \<rightharpoonup> nat"

definition cache_get :: "cache \<Rightarrow> string \<Rightarrow> bool" where
  \<comment> \<open>Modelled from the spec: \<open>cache.get\<close> of memory-cache-ttl, read for its truth value;
      the stored value is always \<open>true\<close>, and an entry is found until a sweep removes it.\<close>
  "cache_get c key = (c key \<noteq> None)"

definition cache_set :: "cache \<Rightarrow> nat \<Rightarrow> string \<Rightarrow> cache" where
  \<comment> \<open>Modelled from the spec: \<open>cache.set\<close> of memory-cache-ttl with the global \<open>ttl\<close> of
      30 seconds.\<close>
  "cache_set c now key = c(key \<mapsto> now + 30000)"

definition cleanExpired :: "cache \<Rightarrow> nat \<Rightarrow> cache" where
  \<comment> \<open>Modelled from the spec: the sweep that the timer of memory-cache-ttl runs every
      \<open>interval\<close> (3 seconds); it removes the entries whose time has come.\<close>
  "cleanExpired c now =
     (\<lambda>key. case c key of None \<Rightarrow> None
             | Some expires \<Rightarrow> if expires \<le> now then None else Some expires)"

section \<open>Payload decoders\<close>

text \<open>
  The cases of the \<open>switch\<close> on the type name in \<open>parseMessage\<close>, one definition for each.
  A case that returns before the callback gives the reason on the left.
\<close>

definition eventCount :: "string \<Rightarrow> jsval" where
  "eventCount raw = JNumber (num (parseInt16 raw))"

definition decode_tempHumidity :: "params \<Rightarrow> real option \<Rightarrow> string \<Rightarrow> message \<Rightarrow> message" where
  "decode_tempHumidity p battery messageData m =
     (let older = (length messageData = 8);
          tempRaw = (if older then substring messageData 0 4 else substring messageData 10 14);
          humidityRaw = (if older then substringFrom messageData 4 else substringFrom messageData 14);
          m1 = (if \<not> older \<and> sendEventCount p
                then setPayload ''eventCount'' (eventCount (substring messageData 2 10)) m
                else m)
      in assignPayload
           (\<lambda>pl. spread pl ([(''battery'', JNumber battery)] @ calculateTemperature p tempRaw
                              @ [(''humidity'', JNumber (calculateHumidity humidityRaw))])) m1)"

definition decode_tempHumidityAdc :: "params \<Rightarrow> real option \<Rightarrow> string \<Rightarrow> message \<Rightarrow> message" where
  "decode_tempHumidityAdc p battery messageData m =
     (let m1 = setPayload ''battery'' (JNumber battery) m;
          m2 = (if sendEventCount p
                then setPayload ''eventCount'' (eventCount (substring messageData 2 10)) m1
                else m1);
          rawTemp = substring messageData 10 14;
          rawHumidity = substring messageData 14 18;
          rawAdcMax = substring messageData 22 26;
          rawAdcIn = substringFrom messageData 26
      in assignPayload
           (\<lambda>pl. spread pl (calculateTemperature p rawTemp
                              @ [(''humidity'', JNumber (calculateHumidity rawHumidity)),
                                 (''adcIn'', JString rawAdcIn),
                                 (''adcMax'', JString rawAdcMax)])) m2)"

definition decode_tempHumidityLight :: "params \<Rightarrow> real option \<Rightarrow> string \<Rightarrow> message \<Rightarrow> message" where
  "decode_tempHumidityLight p battery messageData m =
     (let m1 = setPayload ''battery'' (JNumber battery) m;
          m2 = (if sendEventCount p
                then setPayload ''eventCount'' (eventCount (substring messageData 2 10)) m1
                else m1);
          rawTemp = substring messageData 10 14;
          rawHumidity = substring messageData 14 18;
          rawAdcMax = substring messageData 22 26;
          rawAdcIn = substringFrom messageData 26;
          lux = roundTo
                  (map_option (\<lambda>x. 0.003 * x)
                     (Math_pow (num (parseInt16 rawAdcIn))
                        (map_option (\<lambda>b. 1.89 - (3.7 - b) / 25) battery))) 0;
          rounded = Math_round (map_option (\<lambda>l. l / 100) lux);
          bucketedLux = (case rounded of None \<Rightarrow> None
                         | Some b \<Rightarrow> if b > 15 then Some 15 else Some b);
          m3 = assignPayload
                 (\<lambda>pl. spread pl (calculateTemperature p rawTemp
                                    @ [(''humidity'', JNumber (calculateHumidity rawHumidity)),
                                       (''bucketedLux'', JNumber bucketedLux)])) m2;
          m4 = (if sendRawLux p then setPayload ''lux'' (JNumber lux) m3 else m3)
      in if sendAdcWithLux p
         then setPayload ''adcMax'' (JString rawAdcMax) (setPayload ''adcIn'' (JString rawAdcIn) m4)
         else m4)"

definition decode_moisture :: "params \<Rightarrow> real option \<Rightarrow> string \<Rightarrow> message \<Rightarrow> drop + message" where
  "decode_moisture p battery messageData m =
     (let m1 = setPayload ''battery'' (JNumber battery) m;
          count = (\<lambda>m'. if sendEventCount p
                         then setPayload ''eventCount'' (eventCount (substring messageData 2 10)) m'
                         else m')
      in if startsWith messageData ''21'' \<or> startsWith messageData ''22''
         then (if \<not> sendStatusMessages p then Inl StatusSuppressed
               else Inr (count (assignPayload
                      (\<lambda>pl. spread pl ([(''moisture'', JBool (startsWith messageData ''21''))]
                           @ calculateTemperature p (substring messageData 10 14)
                           @ [(''humidity'',
                               JNumber (calculateHumidity (substringFrom messageData 14)))]))
                      (m1\<lparr>type := ''moistureStatus''\<rparr>))))
         else Inr (count (setPayload ''moisture'' (JBool (startsWith messageData ''81'')) m1)))"

definition decode_motion :: "params \<Rightarrow> real option \<Rightarrow> string \<Rightarrow> message \<Rightarrow> drop + message" where
  "decode_motion p battery messageData m =
     (let m1 = setPayload ''battery'' (JNumber battery) m;
          count = (\<lambda>m'. if length messageData = 10 \<and> sendEventCount p
                         then setPayload ''eventCount'' (eventCount (substringFrom messageData 2)) m'
                         else m')
      in if startsWith messageData ''20''
         then (if \<not> sendStatusMessages p then Inl StatusSuppressed
               else Inr (count (m1\<lparr>type := ''motionStatus''\<rparr>)))
         else Inr (count (setPayload ''motion'' (JBool True) m1)))"

definition decode_switch :: "params \<Rightarrow> real option \<Rightarrow> string \<Rightarrow> message \<Rightarrow> drop + message" where
  "decode_switch p battery messageData m =
     (let m1 = setPayload ''battery'' (JNumber battery) m;
          m2 = (if length messageData = 10 \<and> sendEventCount p
                then setPayload ''eventCount'' (eventCount (substringFrom messageData 2)) m1
                else m1)
      in if startsWith messageData ''21'' \<or> startsWith messageData ''22''
         then (if \<not> sendStatusMessages p then Inl StatusSuppressed
               else Inr (setPayload ''switch''
                           (JBool (if switchOpenValue p then startsWith messageData ''21''
                                   else startsWith messageData ''22''))
                           (m2\<lparr>type := ''switchStatus''\<rparr>)))
         else Inr (setPayload ''switch''
                     (JBool (if switchOpenValue p then startsWith messageData ''81''
                             else startsWith messageData ''82'')) m2))"

definition decode_boot :: "params \<Rightarrow> real option \<Rightarrow> string \<Rightarrow> message \<Rightarrow> drop + message" where
  "decode_boot p battery messageData m =
     (if sendBootMessages p
      then Inr (setPayload ''resetCause''
                  (JString (if messageData = ''00'' then ''powerOn''
                            else if messageData = ''01'' then ''externalReset''
                            else if messageData = ''02'' then ''watchdogReset''
                            else ''unknown''))
                  (setPayload ''battery'' (JNumber battery) m))
      else Inl BootSuppressed)"

definition decode_rs485Config :: "string \<Rightarrow> message \<Rightarrow> drop + message" where
  \<comment> \<open>The object has \<open>PARITY_NONE\<close>, \<open>PARITY_ODD\<close> and \<open>PARTITY_EVEN\<close>: the case
      for \<open>'02'\<close> reads \<open>PARITY_EVEN\<close>, which is \<open>undefined\<close>.\<close>
  "decode_rs485Config messageData m =
     (if length messageData \<noteq> 7 then Inl BadConfigLength
      else
        let baudRate = substring messageData 0 2;
            parity = substring messageData 2 4;
            stopBits = substring messageData 4 6;
            bitMask = substringFrom messageData 6;
            m1 = setPayload ''baudRate''
                   (JString (if baudRate = ''00'' then ''2400''
                             else if baudRate = ''01'' then ''4800''
                             else if baudRate = ''02'' then ''9600''
                             else if baudRate = ''03'' then ''19200''
                             else ''?'')) m;
            m2 = setPayload ''parity''
                   (if parity = ''00'' then JString ''none''
                    else if parity = ''01'' then JString ''odd''
                    else if parity = ''02'' then JUndefined
                    else JString ''?'') m1;
            m3 = setPayload ''stopBits''
                   (JNumber (Some (if stopBits = ''00'' then 1
                                   else if stopBits = ''01'' then 2 else - 1))) m2
        in Inr (setPayload ''bitMask''
                  (JNumber (Some (if bitMask = ''00'' then 8
                                  else if bitMask = ''01'' then 7 else - 1))) m3))"

definition decode_rs485ChunkEnvelopeResponse :: "real option \<Rightarrow> string \<Rightarrow> message \<Rightarrow> message" where
  "decode_rs485ChunkEnvelopeResponse battery messageData m =
     setPayload ''chunkSize'' (JNumber (num (parseInt16 (substringFrom messageData 2))))
       (setPayload ''numChunks'' (JNumber (num (parseInt16 (substring messageData 0 2))))
          (setPayload ''battery'' (JNumber battery) m))"

definition decode_text :: "params \<Rightarrow> real option \<Rightarrow> string \<Rightarrow> message \<Rightarrow> message" where
  "decode_text p battery messageData m =
     setPayload ''text''
       (if decodeTextMessages p then JUnits (hexDecode messageData) else JString messageData)
       (setPayload ''battery'' (JNumber battery) m)"

definition decodePayload ::
  "params \<Rightarrow> string \<Rightarrow> real option \<Rightarrow> string \<Rightarrow> message \<Rightarrow> drop + message" where
  "decodePayload p messageTypeString battery messageData m =
     (if messageTypeString = ''tempHumidity'' then Inr (decode_tempHumidity p battery messageData m)
      else if messageTypeString = ''tempHumidityAdc''
        then Inr (decode_tempHumidityAdc p battery messageData m)
      else if messageTypeString = ''tempHumidityLight''
        then Inr (decode_tempHumidityLight p battery messageData m)
      else if messageTypeString = ''moisture'' then decode_moisture p battery messageData m
      else if messageTypeString = ''motion'' then decode_motion p battery messageData m
      else if messageTypeString = ''switch'' then decode_switch p battery messageData m
      else if messageTypeString = ''boot'' then decode_boot p battery messageData m
      else if messageTypeString = ''rs485Config'' then decode_rs485Config messageData m
      else if messageTypeString = ''rs485Request''
        then Inr (setPayload ''data'' (JString messageData) m)
      else if messageTypeString = ''rs485Response''
        then Inr (setPayload ''rs485'' (JString messageData)
                    (setPayload ''battery'' (JNumber battery) m))
      else if messageTypeString = ''rs485ChunkEnvelopeResponse''
        then Inr (decode_rs485ChunkEnvelopeResponse battery messageData m)
      else if messageTypeString = ''rs485ChunkResponse''
        then Inr (setPayload ''data'' (JString messageData)
                    (setPayload ''battery'' (JNumber battery) m))
      else if messageTypeString = ''text'' then Inr (decode_text p battery messageData m)
      else Inr m)"

section \<open>parseMessage\<close>

definition withoutCrc :: "string \<Rightarrow> string" where
  \<comment> \<open>\<open>data.substring(0, data.length - 4)\<close>; a negative end counts as 0\<close>
  "withoutCrc fullMessage = substring fullMessage 0 (length fullMessage - 4)"

definition hexHeader :: "string \<Rightarrow> int option" where
  "hexHeader data = parseInt16 (substring data 0 2)"

definition headerLength :: "string \<Rightarrow> nat" where
  "headerLength data = unat (ToInt32 (hexHeader data) AND 31)"

definition headerType :: "string \<Rightarrow> 32 word" where
  "headerType data = ToInt32 (hexHeader data) AND 128"

definition payloadType :: "string \<Rightarrow> 32 word" where
  "payloadType data = ToInt32 (hexHeader data) AND 96"

definition messageTypeOf :: "string \<Rightarrow> string" where
  "messageTypeOf data =
     substring data (2 + (headerLength data * 2)) (4 + (headerLength data * 2))"

definition sourceAddrOf :: "string \<Rightarrow> string" where
  "sourceAddrOf data = substring data 8 12"

definition sequenceNumberOf :: "string \<Rightarrow> int option" where
  "sequenceNumberOf data = parseInt16 (substring data 2 4)"

definition batteryOf :: "string \<Rightarrow> real option" where
  "batteryOf data =
     map_option (\<lambda>b. real_of_int b / 10)
       (parseInt16 (substring data (4 + (headerLength data * 2)) (6 + (headerLength data * 2))))"

definition messageDataOf :: "string \<Rightarrow> string" where
  "messageDataOf data = substringFrom data (6 + (headerLength data * 2))"

definition cacheKeyOf :: "string \<Rightarrow> string" where
  "cacheKeyOf data =
     sourceAddrOf data @ numberToString (sequenceNumberOf data) @ messageDataOf data"

definition newMessage :: "params \<Rightarrow> nat \<Rightarrow> string \<Rightarrow> string \<Rightarrow> string \<Rightarrow> message" where
  \<comment> \<open>the message object as it stands before the payload is decoded; \<open>now\<close> is the clock
      in milliseconds\<close>
  "newMessage p now fullMessage data messageTypeString =
     (let m = \<lparr>type = messageTypeString, payload = Some [],
               sensorId = sourceAddrOf data, sequenceNumber = sequenceNumberOf data,
               timestamp = (if useMillisecondTimestamps p then now else now div 1000),
               numHops = None, maxHops = None, rawData = None\<rparr>;
          m1 = (if isBroadcastMessageType (messageTypeOf data) \<and> sendHopData p
                then m\<lparr>numHops := Some (parseInt16 (substring data 4 6)),
                       maxHops := Some (parseInt16 (substring data 6 8))\<rparr>
                else m)
      in if sendRawData p then m1\<lparr>rawData := Some fullMessage\<rparr> else m1)"

definition deliver :: "params \<Rightarrow> nat \<Rightarrow> string \<Rightarrow> string \<Rightarrow> string \<Rightarrow> outcome" where
  \<comment> \<open>from the construction of the message to the callback\<close>
  "deliver p now fullMessage data messageTypeString =
     (let m = newMessage p now fullMessage data messageTypeString
      in if \<not> sendDecodedPayload p then Delivered (m\<lparr>payload := None\<rparr>)
         else (case decodePayload p messageTypeString (batteryOf data) (messageDataOf data) m of
                 Inl reason \<Rightarrow> Dropped reason
               | Inr m' \<Rightarrow> Delivered m'))"

definition parseMessage :: "params \<Rightarrow> nat \<Rightarrow> cache \<Rightarrow> string \<Rightarrow> outcome \<times> cache" where
  \<comment> \<open>The debug logging is left out, except the line for an ignorable type: it reads the
      variable \<open>fullMesage\<close>, which is declared nowhere.\<close>
  "parseMessage p now c fullMessage =
     (let data = withoutCrc fullMessage
      in if headerType data \<noteq> 0 then (Dropped ExtendedHeader, c)
         else if payloadType data \<noteq> 32 then (Dropped UnsupportedPayloadType, c)
         else if messageTypeOf data \<in> set IGNORABLE_MESSAGE_TYPES
           then (if debugMode p then (Threw (ReferenceError ''fullMesage''), c)
                 else (Dropped IgnorableType, c))
         else (case MESSAGE_TYPES (messageTypeOf data) of
                 None \<Rightarrow> (Dropped UnknownType, c)
               | Some messageTypeString \<Rightarrow>
                   if length messageTypeString = 0 then (Dropped UnknownType, c)
                   else if deDuplicateBursts p
                     then (if \<not> cache_get c (cacheKeyOf data)
                           then (deliver p now fullMessage data messageTypeString,
                                 cache_set c now (cacheKeyOf data))
                           else (Dropped DuplicateBurst, c))
                     else (deliver p now fullMessage data messageTypeString, c)))"

section \<open>The handler of inbound records (startGateway)\<close>

record gateway =
  macAddress :: "string option"
  contikiVersion :: "string option"
  conectricVersion :: "string option"
  cache :: cache

definition truthy :: "string option \<Rightarrow> bool" where
  \<comment> \<open>\<open>undefined\<close> and the empty string are false\<close>
  "truthy x = (case x of None \<Rightarrow> False | Some s \<Rightarrow> s \<noteq> [])"

datatype handled =
    Parsed outcome
  | MacAddressFound
  | DumpPayloadOk
  | SinkOk
  | ContikiVersionFound
  | ConectricVersionFound
  | Unprocessed

definition onData :: "params \<Rightarrow> nat \<Rightarrow> gateway \<Rightarrow> string \<Rightarrow> handled \<times> gateway" where
  \<comment> \<open>the listener on \<open>parser.on('data', ...)\<close>; in its last branch a record that is not
      one of \<open>KNOWN_COMMANDS\<close> is logged in debug mode, and nothing else happens\<close>
  "onData p now g data =
     (if startsWith data ''>'' \<and> truthy (conectricVersion g) \<and> truthy (contikiVersion g)
         \<and> truthy (macAddress g)
      then (case parseMessage p now (cache g) (substringFrom data 1) of
              (result, c) \<Rightarrow> (Parsed result, g\<lparr>cache := c\<rparr>))
      else if startsWith data ''MR:''
        then (MacAddressFound, g\<lparr>macAddress := Some (substringFrom data 3)\<rparr>)
      else if data = ''DP:Ok'' then (DumpPayloadOk, g)
      else if data = ''SS:Ok'' then (SinkOk, g)
      else if startsWith (toLowerCase data) ''ver:contiki''
        then (ContikiVersionFound, g\<lparr>contikiVersion := Some (substringFrom data 12)\<rparr>)
      else if startsWith (toLowerCase data) ''ver:conectric-v''
        then (ConectricVersionFound, g\<lparr>conectricVersion := Some (substringFrom data 15)\<rparr>)
      else (Unprocessed, g))"

definition deviceLost :: "gateway \<Rightarrow> gateway" where
  \<comment> \<open>the \<open>catch\<close> branch of \<open>startGateway\<close>, when no router device is found\<close>
  "deviceLost g = g\<lparr>macAddress := None, contikiVersion := None, conectricVersion := None\<rparr>"

definition initialGateway :: gateway where
  "initialGateway =
     \<lparr>macAddress = None, contikiVersion = None, conectricVersion = None, cache = Map.empty\<rparr>"

text \<open>
  The event loop: an inbound record at a time, or a tick of the cache's cleaning timer.
  An exception that leaves the listener is not caught anywhere, so the run ends there.
\<close>

datatype event = Record nat string | Sweep nat

fun run :: "params \<Rightarrow> gateway \<Rightarrow> event list \<Rightarrow> handled list \<times> gateway" where
  "run p g [] = ([], g)"
| "run p g (Sweep now # es) = run p (g\<lparr>cache := cleanExpired (cache g) now\<rparr>) es"
| "run p g (Record now data # es) =
     (case onData p now g data of
        (Parsed (Threw e), g') \<Rightarrow> ([Parsed (Threw e)], g')
      | (h, g') \<Rightarrow> (case run p g' es of (hs, g'') \<Rightarrow> (h # hs, g'')))"

fun callbacks :: "handled list \<Rightarrow> message list" where
  \<comment> \<open>the calls of \<open>onSensorMessage\<close>, in order\<close>
  "callbacks [] = []"
| "callbacks (Parsed (Delivered m) # hs) = m # callbacks hs"
| "callbacks (h # hs) = callbacks hs"

section \<open>The formulas and tables as the specification words them\<close>

definition round2 :: "real \<Rightarrow> real" where
  "round2 x = real_of_int \<lfloor>x * 100 + 1 / 2\<rfloor> / 100"

definition spec_celsius :: "real \<Rightarrow> real" where
  "spec_celsius t = round2 (- 46.85 + (t / 65536) * 175.72)"

definition spec_fahrenheit :: "real \<Rightarrow> real" where
  "spec_fahrenheit celsius = round2 (celsius * 9 / 5 + 32)"

definition spec_humidity :: "real \<Rightarrow> real" where
  "spec_humidity h = round2 (- 6 + 125 * (h / 65536))"

definition spec_resetCause :: "string \<Rightarrow> string" where
  "spec_resetCause bytes =
     (if bytes = ''00'' then ''powerOn''
      else if bytes = ''01'' then ''externalReset''
      else if bytes = ''02'' then ''watchdogReset''
      else ''unknown'')"

definition tooShort :: "string \<Rightarrow> bool" where
  \<comment> \<open>the record ends before the message data, or before the end of the source address\<close>
  "tooShort data = (length data < max 12 (6 + headerLength data * 2))"

section \<open>Evaluation rules\<close>

lemmas js_defs = substring_def substringFrom_def startsWith_def isWhiteSpace_def
  hexDigitValue_def parseInt16_def ToInt32_def fromCharCode_def hexChar_def
  numberToString_def num_def roundTo_def

lemmas frame_defs = withoutCrc_def hexHeader_def headerLength_def headerType_def
  payloadType_def messageTypeOf_def sourceAddrOf_def sequenceNumberOf_def batteryOf_def
  messageDataOf_def cacheKeyOf_def

lemmas table_defs = IGNORABLE_MESSAGE_TYPES_def MESSAGE_TYPES_def BROADCAST_MESSAGE_TYPES_def
  isBroadcastMessageType_def

lemmas message_defs = deliver_def newMessage_def decodePayload_def assignPayload_def
  setPayload_def spread_def cache_get_def cache_set_def

lemmas bring_up_defs = onData_def truthy_def toLowerCase_def initialGateway_def

lemmas decoder_defs = decode_tempHumidity_def decode_tempHumidityAdc_def
  decode_tempHumidityLight_def decode_moisture_def decode_motion_def decode_switch_def
  decode_boot_def decode_rs485Config_def decode_rs485ChunkEnvelopeResponse_def
  decode_text_def eventCount_def

section \<open>The hex codec\<close>

lemma less_16_cases:
  "d < (16::nat) \<Longrightarrow>
     d = 0 \<or> d = 1 \<or> d = 2 \<or> d = 3 \<or> d = 4 \<or> d = 5 \<or> d = 6 \<or> d = 7 \<or>
     d = 8 \<or> d = 9 \<or> d = 10 \<or> d = 11 \<or> d = 12 \<or> d = 13 \<or> d = 14 \<or> d = 15"
  by arith

lemma of_char_hexChar:
  assumes "d < 16"
  shows "of_char (hexChar d) = (if d < 10 then 48 + d else 87 + d)"
  using less_16_cases [OF assms] by (elim disjE) (simp_all add: hexChar_def)

lemma hexDigitValue_hexChar: "d < 16 \<Longrightarrow> hexDigitValue (hexChar d) = Some d"
  by (simp add: hexDigitValue_def of_char_hexChar)

lemma hexChar_not_white: "d < 16 \<Longrightarrow> \<not> isWhiteSpace (hexChar d)"
  by (simp add: isWhiteSpace_def of_char_hexChar)

lemma hexChar_neq:
  assumes "d < 16" and "of_char c \<notin> {48..57} \<union> {97..(102::nat)}"
  shows "hexChar d \<noteq> c"
proof
  assume "hexChar d = c"
  then have "of_char c = (if d < 10 then 48 + d else 87 + d)"
    using of_char_hexChar [OF assms(1)] by simp
  with assms show False by (auto split: if_splits)
qed

lemma parseInt16_two_digits:
  assumes "h < 16" and "l < 16"
  shows "parseInt16 [hexChar h, hexChar l] = Some (int (16 * h + l))"
proof -
  have sign: "hexChar h \<noteq> CHR ''-''" "hexChar h \<noteq> CHR ''+''"
    by (rule hexChar_neq [OF assms(1)], simp)+
  have prefix: "hexChar l \<noteq> CHR ''x''" "hexChar l \<noteq> CHR ''X''"
    by (rule hexChar_neq [OF assms(2)], simp)+
  show ?thesis
    using assms sign prefix
    by (simp add: parseInt16_def startsWith_def hexChar_not_white hexDigitValue_hexChar)
qed

lemma encodedChar_byte:
  assumes "c < 256"
  shows "encodedChar c = [hexChar (c div 16), hexChar (c mod 16)]"
proof (cases "c < 16")
  case True
  then show ?thesis by (simp add: encodedChar_def hexChar_def)
next
  case False
  with assms have "c div 16 < 16" by simp
  with False show ?thesis
    by (subst encodedChar_def, subst toString16.simps, subst toString16.simps) simp
qed

lemma hexEncode_loop:
  "foldl (\<lambda>acc c. acc @ encodedChar c) a cs = a @ concat (map encodedChar cs)"
  by (induction cs arbitrary: a) simp_all

lemma hexEncode_Cons_byte:
  assumes "c < 256"
  shows "hexEncode (c # s) = hexChar (c div 16) # hexChar (c mod 16) # hexEncode s"
  by (simp add: hexEncode_def hexEncode_loop encodedChar_byte [OF assms])

text \<open>
  C8. For every string \<open>s\<close> whose characters all have a code between 0 and 255,
  \<open>hexDecode(hexEncode(s))\<close> is \<open>s\<close>.
\<close>

theorem hexDecode_hexEncode:
  "\<forall>c\<in>set s. c \<le> 255 \<Longrightarrow> hexDecode (hexEncode s) = s"
proof (induction s)
  case Nil
  then show ?case by (simp add: hexEncode_def)
next
  case (Cons c s)
  then have c: "c < 256" and ih: "hexDecode (hexEncode s) = s" by simp_all
  from c have "c div 16 < 16" by simp
  then have "parseInt16 [hexChar (c div 16), hexChar (c mod 16)] = Some (int c)"
    by (simp add: parseInt16_two_digits)
  moreover from c have "nat (int c mod 65536) = c"
    by (simp add: nat_mod_distrib)
  ultimately show ?case
    using ih by (simp add: hexEncode_Cons_byte [OF c] fromCharCode_def)
qed

theorem hexDecode_hexEncode_witness:
  "hexEncode [72, 105, 0, 255] = ''486900ff''
     \<and> hexDecode (hexEncode [72, 105, 0, 255]) = [72, 105, 0, 255]"
proof -
  have bytes: "\<forall>c\<in>set [72, 105, 0, 255 :: nat]. c \<le> 255" by simp
  have "hexEncode [72, 105, 0, 255] = ''486900ff''"
    by (simp add: hexEncode_def encodedChar_def hexChar_def)
  with hexDecode_hexEncode [OF bytes] show ?thesis by simp
qed

lemma hexEncode_beyond_a_byte: "hexDecode (hexEncode [256]) = [16, 0]"
  by (simp add: hexEncode_def encodedChar_def js_defs)

section \<open>Rounding to the nearest double\<close>

text \<open>
  \<open>fl\<close> is within half a unit in the last place of its argument, leaves a number with a
  53-bit significand unchanged, and can be evaluated on a given number once its exponent
  is known. A value near a point of a grid, but not on it, has the floor of that point.
\<close>

lemma roundEven_near: "\<bar>of_int (roundEven y) - y\<bar> \<le> 1 / 2"
  unfolding roundEven_def Let_def by (auto; linarith)

lemma roundEven_of_int: "roundEven (of_int n) = n"
  by (simp add: roundEven_def)

lemma roundEven_eqI:
  assumes "\<bar>y - of_int m\<bar> < 1 / 2"
  shows "roundEven y = m"
proof (cases "of_int m \<le> y")
  case True
  with assms have "\<lfloor>y\<rfloor> = m" by (intro floor_unique) linarith+
  with assms True show ?thesis by (simp add: roundEven_def)
next
  case False
  with assms have "\<lfloor>y\<rfloor> = m - 1" by (intro floor_unique) (simp, linarith)+
  with assms False show ?thesis by (simp add: roundEven_def)
qed

lemma exponentFrom_eq:
  assumes "2 powi e \<le> a" and "a < 2 powi (e + 1)" and "e \<le> e0" and "e0 - int n \<le> e"
  shows "exponentFrom n e0 a = e"
  using assms
proof (induction n arbitrary: e0)
  case 0
  then show ?case by simp
next
  case (Suc n)
  show ?case
  proof (cases "2 powi e0 \<le> a")
    case True
    have "e0 \<le> e"
    proof (rule ccontr)
      assume "\<not> e0 \<le> e"
      then have "(2::real) powi (e + 1) \<le> 2 powi e0"
        by (intro power_int_increasing) simp_all
      with True Suc.prems(2) show False by linarith
    qed
    with Suc.prems(3) True show ?thesis by simp
  next
    case False
    with Suc.prems(1) have "e \<noteq> e0" by auto
    with Suc.prems(3,4) have "e \<le> e0 - 1" "e0 - 1 - int n \<le> e" by simp_all
    with Suc.prems(1,2) have "exponentFrom n (e0 - 1) a = e" by (rule Suc.IH)
    with False show ?thesis by simp
  qed
qed

lemma exponentFrom_range:
  "e0 - int n \<le> exponentFrom n e0 a \<and> exponentFrom n e0 a \<le> e0"
proof (induction n arbitrary: e0)
  case 0
  then show ?case by simp
next
  case (Suc n)
  from Suc [of "e0 - 1"] show ?case by simp
qed

lemma exponentFrom_le:
  "e0 - int n < exponentFrom n e0 a \<Longrightarrow> 2 powi (exponentFrom n e0 a) \<le> a"
proof (induction n arbitrary: e0)
  case 0
  then show ?case by simp
next
  case (Suc n)
  show ?case
  proof (cases "2 powi e0 \<le> a")
    case True
    then show ?thesis by simp
  next
    case False
    with Suc.prems have "e0 - 1 - int n < exponentFrom n (e0 - 1) a" by simp
    then have "2 powi (exponentFrom n (e0 - 1) a) \<le> a" by (rule Suc.IH)
    with False show ?thesis by simp
  qed
qed

lemma fl_error: "\<bar>fl x - x\<bar> \<le> \<bar>x\<bar> / 2 ^ 53 + 1 / 2 ^ 1075"
proof -
  define e where "e = exponentFrom 2045 1023 \<bar>x\<bar>"
  define u :: real where "u = 2 powi (e - 52)"
  have u: "0 < u" by (simp add: u_def)
  have range: "- 1022 \<le> e"
    using exponentFrom_range [of 1023 2045 "\<bar>x\<bar>"] by (simp add: e_def)
  have "fl x - x = (of_int (roundEven (x / u)) - x / u) * u"
    using u by (simp add: fl_def e_def u_def Let_def algebra_simps)
  then have "\<bar>fl x - x\<bar> = \<bar>of_int (roundEven (x / u)) - x / u\<bar> * u"
    using u by (simp add: abs_mult)
  also have "\<dots> \<le> (1 / 2) * u"
    using roundEven_near [of "x / u"] u by (intro mult_right_mono) simp_all
  also have "\<dots> \<le> \<bar>x\<bar> / 2 ^ 53 + 1 / 2 ^ 1075"
  proof (cases "e = - 1022")
    case True
    have "(2::real) powi (- 1074) = 1 / 2 ^ 1074"
      by (simp only: power_int_minus power_int_numeral) (simp add: field_simps)
    then have "(1 / 2) * u = 1 / 2 ^ 1075"
      by (simp add: u_def True)
    then show ?thesis by simp
  next
    case False
    with range have "1023 - int 2045 < exponentFrom 2045 1023 \<bar>x\<bar>"
      by (simp add: e_def)
    then have "2 powi e \<le> \<bar>x\<bar>"
      unfolding e_def by (rule exponentFrom_le)
    moreover have "u * 2 ^ 52 = 2 powi e"
      by (simp add: u_def power_int_diff)
    ultimately have "u * 2 ^ 52 \<le> \<bar>x\<bar>" by simp
    then have "(1 / 2) * u \<le> \<bar>x\<bar> / 2 ^ 53" by simp
    then show ?thesis by simp
  qed
  finally show ?thesis .
qed

lemma fl_error_bound:
  assumes "\<bar>x\<bar> \<le> B"
  shows "\<bar>fl x - x\<bar> \<le> (B + 1) / 2 ^ 53"
proof -
  have "\<bar>fl x - x\<bar> \<le> \<bar>x\<bar> / 2 ^ 53 + 1 / 2 ^ 1075" by (rule fl_error)
  moreover have "\<bar>x\<bar> / 2 ^ 53 \<le> B / 2 ^ 53"
    using assms by (intro divide_right_mono) simp_all
  moreover have "(1::real) / 2 ^ 1075 \<le> 1 / 2 ^ 53"
    by (intro divide_left_mono power_increasing) simp_all
  ultimately show ?thesis by (simp add: add_divide_distrib)
qed

lemma fl_roundI:
  assumes "2 ^ 52 \<le> \<bar>x\<bar> * 2 ^ k" and "\<bar>x\<bar> * 2 ^ k < 2 ^ 53" and "k \<le> 1074"
      and "roundEven (x * 2 ^ k) = m"
  shows "fl x = of_int m / 2 ^ k"
proof -
  have "2 powi (52 - int k) \<le> \<bar>x\<bar>" "\<bar>x\<bar> < 2 powi (52 - int k + 1)"
    using assms(1,2) by (simp_all add: power_int_diff power_int_add field_simps)
  moreover have "52 - int k \<le> 1023" "1023 - int 2045 \<le> 52 - int k"
    using assms(3) by simp_all
  ultimately have e: "exponentFrom 2045 1023 \<bar>x\<bar> = 52 - int k"
    by (rule exponentFrom_eq)
  have u: "(2::real) powi (exponentFrom 2045 1023 \<bar>x\<bar> - 52) = 1 / 2 ^ k"
    by (simp add: e power_int_minus field_simps)
  show ?thesis using assms(4) by (simp add: fl_def u Let_def)
qed

lemma fl_eqI:
  assumes "2 ^ 52 \<le> \<bar>x\<bar> * 2 ^ k" and "\<bar>x\<bar> * 2 ^ k < 2 ^ 53" and "k \<le> 1074"
      and "\<bar>x * 2 ^ k - of_int m\<bar> < 1 / 2"
  shows "fl x = of_int m / 2 ^ k"
  using assms(1-3) roundEven_eqI [OF assms(4)] by (rule fl_roundI)

lemma fl_exact:
  assumes "\<bar>n\<bar> < 2 ^ 53" and "k \<le> 1074"
  shows "fl (of_int n / 2 ^ k) = of_int n / 2 ^ k"
proof -
  define x :: real where "x = of_int n / 2 ^ k"
  define e where "e = exponentFrom 2045 1023 \<bar>x\<bar>"
  have range: "- 1022 \<le> e"
    using exponentFrom_range [of 1023 2045 "\<bar>x\<bar>"] by (simp add: e_def)
  have "\<bar>x\<bar> < 2 ^ 53 / 2 ^ k"
    using assms(1) by (simp add: x_def abs_divide divide_strict_right_mono)
  then have less: "\<bar>x\<bar> < 2 powi (53 - int k)"
    by (simp add: power_int_diff)
  have "e < 53 - int k"
  proof (cases "e = - 1022")
    case True
    with assms(2) show ?thesis by simp
  next
    case False
    with range have "1023 - int 2045 < exponentFrom 2045 1023 \<bar>x\<bar>"
      by (simp add: e_def)
    then have "2 powi e \<le> \<bar>x\<bar>"
      unfolding e_def by (rule exponentFrom_le)
    with less have strict: "(2::real) powi e < 2 powi (53 - int k)" by linarith
    show ?thesis
    proof (rule ccontr)
      assume "\<not> e < 53 - int k"
      then have "(2::real) powi (53 - int k) \<le> 2 powi e"
        by (intro power_int_increasing) simp_all
      with strict show False by linarith
    qed
  qed
  define j where "j = nat (52 - e - int k)"
  have j: "52 - e = int k + int j"
    using \<open>e < 53 - int k\<close> by (simp add: j_def)
  have u: "(2::real) powi (e - 52) = 1 / 2 ^ (k + j)"
  proof -
    have "e - 52 = - int (k + j)" using j by simp
    then show ?thesis by (simp only: power_int_minus power_int_of_nat) (simp add: field_simps)
  qed
  have "x / (1 / 2 ^ (k + j)) = of_int (n * 2 ^ j)"
    by (simp add: x_def power_add)
  then have "of_int (roundEven (x / (1 / 2 ^ (k + j)))) * (1 / 2 ^ (k + j)) = x"
    by (simp only: roundEven_of_int) (simp add: x_def power_add)
  then show ?thesis by (simp add: fl_def Let_def x_def [symmetric] e_def [symmetric] u)
qed

lemma floor_grid:
  fixes N D :: int and \<delta> :: real
  assumes "0 < D" and "N mod D \<noteq> 0" and "\<bar>\<delta>\<bar> < 1 / real_of_int D"
  shows "\<lfloor>real_of_int N / real_of_int D + \<delta>\<rfloor> = \<lfloor>real_of_int N / real_of_int D\<rfloor>"
proof -
  have "real_of_int N = real_of_int ((N div D) * D + N mod D)" by simp
  then have split: "real_of_int N = of_int (N div D) * of_int D + of_int (N mod D)"
    by (simp only: of_int_add of_int_mult)
  have rem: "1 \<le> N mod D" "N mod D \<le> D - 1"
    using assms(1,2) pos_mod_sign [of D N] pos_mod_bound [of D N] by linarith+
  have D: "0 < real_of_int D" using assms(1) by simp
  have whole: "real_of_int N / real_of_int D
                 = of_int (N div D) + real_of_int (N mod D) / real_of_int D"
    using D by (simp add: split field_simps)
  have low: "1 / real_of_int D \<le> real_of_int (N mod D) / real_of_int D"
    using rem(1) D by (simp add: divide_right_mono)
  have "real_of_int (N mod D) \<le> real_of_int D - 1" using rem(2) by linarith
  then have "real_of_int (N mod D) / real_of_int D \<le> (real_of_int D - 1) / real_of_int D"
    using D by (simp add: divide_right_mono)
  also have "\<dots> = 1 - 1 / real_of_int D" using D by (simp add: field_simps)
  finally have high: "real_of_int (N mod D) / real_of_int D \<le> 1 - 1 / real_of_int D" .
  have inv: "0 < 1 / real_of_int D" using D by simp
  have "\<lfloor>real_of_int N / real_of_int D\<rfloor> = N div D"
    using whole low high inv by (intro floor_unique) linarith+
  moreover have "\<lfloor>real_of_int N / real_of_int D + \<delta>\<rfloor> = N div D"
    using whole low high inv assms(3) by (intro floor_unique) linarith+
  ultimately show ?thesis by simp
qed

lemma fl_of_int: "\<bar>n\<bar> < 2 ^ 53 \<Longrightarrow> fl (of_int n) = of_int n"
  using fl_exact [of n 0] by simp

section \<open>Temperature and humidity\<close>

text \<open>
  The doubles of the two literals, the error of the Celsius and Fahrenheit expressions,
  and the four raw values at which the exact Celsius value lies half-way between two
  decimals; the humidity expression is exact in doubles.
\<close>

lemma fl_175_72: "fl 175.72 = 6182597863449559 / 2 ^ 45"
  using fl_eqI [of "175.72" 45 6182597863449559] by simp

lemma fl_46_85: "fl 46.85 = 6593551329447117 / 2 ^ 47"
  using fl_eqI [of "46.85" 47 6593551329447117] by simp

lemma raw_quotient:
  assumes "0 \<le> t" and "t < 65536"
  shows "d_div (fl (real_of_int t)) 65536 = of_int t / 65536"
proof -
  have small: "\<bar>t\<bar> < 2 ^ 53" using assms by simp
  have "fl (of_int t / 2 ^ 16) = of_int t / 2 ^ 16"
    using small by (rule fl_exact) simp
  then show ?thesis by (simp add: d_div_def fl_of_int [OF small])
qed


lemma error_chain:
  fixes x b p w v B :: real
  shows "\<bar>x - (- B + v)\<bar> \<le> \<bar>x - (- b + p)\<bar> + \<bar>b - B\<bar> + \<bar>p - w\<bar> + \<bar>w - v\<bar>"
  by linarith

lemma celsius_error:
  assumes "0 \<le> t" and "t < 65536"
  shows "\<bar>d_add (- fl 46.85) (d_mul (d_div (fl (real_of_int t)) 65536) (fl 175.72))
           - (- 46.85 + (real_of_int t / 65536) * 175.72)\<bar> \<le> 1 / 2 ^ 43"
proof -
  define q where "q = real_of_int t / 65536"
  define c :: real where "c = 6182597863449559 / 2 ^ 45"
  define b :: real where "b = 6593551329447117 / 2 ^ 47"
  define p where "p = fl (q * c)"
  define x where "x = fl (- b + p)"
  have q: "0 \<le> q" "q \<le> 1" using assms by (simp_all add: q_def)
  have c: "0 \<le> c" "c \<le> 176" "\<bar>c - 175.72\<bar> \<le> 1 / 2 ^ 46"
    by (simp_all add: c_def)
  have b: "0 \<le> b" "b \<le> 47" "\<bar>b - 46.85\<bar> \<le> 1 / 2 ^ 48"
    by (simp_all add: b_def)
  have code: "d_add (- fl 46.85) (d_mul (d_div (fl (real_of_int t)) 65536) (fl 175.72)) = x"
    unfolding d_add_def d_mul_def raw_quotient [OF assms] fl_175_72 fl_46_85 x_def p_def q_def
      c_def b_def
    by simp
  have qc: "0 \<le> q * c" "q * c \<le> 176"
    using q c by (simp_all add: mult_le_one mult_mono [of q 1 c 176, simplified])
  have "q * c - q * 175.72 = q * (c - 175.72)"
    by (simp add: algebra_simps)
  then have "\<bar>q * c - q * 175.72\<bar> = \<bar>q\<bar> * \<bar>c - 175.72\<bar>"
    by (simp only: abs_mult)
  also have "\<dots> = q * \<bar>c - 175.72\<bar>"
    using q(1) by simp
  also have "\<dots> \<le> 1 * \<bar>c - 175.72\<bar>"
    using q(2) by (intro mult_right_mono) simp_all
  finally have qerr: "\<bar>q * c - q * 175.72\<bar> \<le> 1 / 2 ^ 46"
    using c(3) by simp
  have "\<bar>q * c\<bar> \<le> 176" using qc by simp
  then have "\<bar>p - q * c\<bar> \<le> (176 + 1) / 2 ^ 53"
    unfolding p_def by (rule fl_error_bound)
  then have perr: "\<bar>p - q * c\<bar> \<le> 177 / 2 ^ 53" by simp
  have tiny: "(177::real) / 2 ^ 53 \<le> 1" by simp
  have "p - q * c \<le> 177 / 2 ^ 53" "q * c - p \<le> 177 / 2 ^ 53"
    using perr by linarith+
  with qc tiny have "p \<le> 177" "- p \<le> 177" by linarith+
  then have pabs: "\<bar>p\<bar> \<le> 177" by (simp add: abs_le_iff)
  have "\<bar>- b + p\<bar> \<le> 224" using pabs b by linarith
  then have "\<bar>x - (- b + p)\<bar> \<le> (224 + 1) / 2 ^ 53"
    unfolding x_def by (rule fl_error_bound)
  then have xerr: "\<bar>x - (- b + p)\<bar> \<le> 225 / 2 ^ 53" by simp
  have "\<bar>x - (- 46.85 + q * 175.72)\<bar>
          \<le> \<bar>x - (- b + p)\<bar> + \<bar>b - 46.85\<bar> + \<bar>p - q * c\<bar> + \<bar>q * c - q * 175.72\<bar>"
    by (rule error_chain)
  also have "\<dots> \<le> 225 / 2 ^ 53 + 1 / 2 ^ 48 + 177 / 2 ^ 53 + 1 / 2 ^ 46"
    using xerr b(3) perr qerr by linarith
  also have "\<dots> \<le> 1 / 2 ^ 43" by simp
  finally have "\<bar>x - (- 46.85 + q * 175.72)\<bar> \<le> 1 / 2 ^ 43" .
  then show ?thesis unfolding code q_def .
qed

lemma celsius_formula:
  assumes "0 \<le> t" and "t < 65536" and "(4393 * t - 76750848) mod 16384 \<noteq> 0"
  shows "roundTo (Some (d_add (- fl 46.85)
                          (d_mul (d_div (fl (real_of_int t)) 65536) (fl 175.72)))) 2
           = Some (spec_celsius (real_of_int t))"
proof -
  define x where "x = d_add (- fl 46.85) (d_mul (d_div (fl (real_of_int t)) 65536) (fl 175.72))"
  define r where "r = - 46.85 + (real_of_int t / 65536) * 175.72"
  define \<delta> where "\<delta> = 100 * (x - r)"
  have "\<bar>x - r\<bar> \<le> 1 / 2 ^ 43"
    unfolding x_def r_def using assms(1,2) by (rule celsius_error)
  moreover have "\<bar>\<delta>\<bar> = 100 * \<bar>x - r\<bar>"
    unfolding \<delta>_def abs_mult by simp
  ultimately have small: "\<bar>\<delta>\<bar> < 1 / real_of_int 16384"
    by simp
  have grid: "r * 100 + 1 / 2 = real_of_int (4393 * t - 76750848) / real_of_int 16384"
    by (simp add: r_def field_simps)
  have shifted: "x * 100 + 1 / 2 = real_of_int (4393 * t - 76750848) / real_of_int 16384 + \<delta>"
    unfolding grid [symmetric] \<delta>_def by (simp add: algebra_simps)
  have "\<lfloor>x * 100 + 1 / 2\<rfloor> = \<lfloor>r * 100 + 1 / 2\<rfloor>"
    unfolding shifted grid by (rule floor_grid [OF _ assms(3) small]) simp
  then show ?thesis
    unfolding x_def r_def roundTo_def spec_celsius_def round2_def by simp
qed


lemma tie_inputs:
  assumes "0 \<le> (t::int)" and "t < 65536" and "(4393 * t - 76750848) mod 16384 = 0"
  shows "t = 8192 \<or> t = 24576 \<or> t = 40960 \<or> t = 57344"
proof -
  have "(2::int) ^ 14 dvd 4393 * t - 76750848"
    using assms(3) by (simp add: mod_eq_0_iff_dvd)
  moreover have "4393 * t - 76750848 = 4393 * (t - 8192) - 2 ^ 14 * 2488" by simp
  ultimately have "(2::int) ^ 14 dvd 4393 * (t - 8192)"
    by (metis dvd_diffD1 dvd_triv_left dvd_add_left_iff diff_add_cancel)
  moreover have "coprime ((2::int) ^ 14) 4393"
    by (subst coprime_power_left_iff) (simp add: coprime_left_2_iff_odd)
  ultimately have "(2::int) ^ 14 dvd t - 8192"
    by (simp only: coprime_dvd_mult_right_iff)
  then obtain k where k: "t - 8192 = 16384 * k" by (auto elim: dvdE)
  with assms(1,2) have "0 \<le> k" "k < 4" by linarith+
  then have "k = 0 \<or> k = 1 \<or> k = 2 \<or> k = 3" by linarith
  with k show ?thesis by auto
qed


lemma celsius_at:
  assumes "0 \<le> t" and "t < 65536"
      and "fl (real_of_int t / 65536 * (6182597863449559 / 2 ^ 45)) = P"
      and "fl (- (6593551329447117 / 2 ^ 47) + P) = X"
  shows "d_add (- fl 46.85) (d_mul (d_div (fl (real_of_int t)) 65536) (fl 175.72)) = X"
  unfolding d_add_def d_mul_def raw_quotient [OF assms(1,2)] fl_175_72 fl_46_85 assms(3) assms(4)
  by (rule refl)

lemma celsius_0x2000:
  "roundTo (Some (d_add (- fl 46.85) (d_mul (d_div (fl (real_of_int 8192)) 65536) (fl 175.72)))) 2
     = Some (- 24.89)"
proof -
  have p: "fl (real_of_int 8192 / 65536 * (6182597863449559 / 2 ^ 45))
             = real_of_int 6182597863449559 / 2 ^ 48"
    by (rule fl_eqI) simp_all
  have x: "fl (- (6593551329447117 / 2 ^ 47) + real_of_int 6182597863449559 / 2 ^ 48)
             = real_of_int (-7004504795444675) / 2 ^ 48"
    by (rule fl_eqI) simp_all
  have e: "d_add (- fl 46.85) (d_mul (d_div (fl (real_of_int 8192)) 65536) (fl 175.72))
          = real_of_int (-7004504795444675) / 2 ^ 48"
    by (rule celsius_at [OF _ _ p x]) simp_all
  show ?thesis unfolding e by (simp add: roundTo_def)
qed

lemma celsius_0x6000:
  "roundTo (Some (d_add (- fl 46.85) (d_mul (d_div (fl (real_of_int 24576)) 65536) (fl 175.72)))) 2
     = Some (19.04)"
proof -
  have p: "fl (real_of_int 24576 / 65536 * (6182597863449559 / 2 ^ 45))
             = real_of_int 4636948397587169 / 2 ^ 46"
    by (rule fl_eqI) simp_all
  have x: "fl (- (6593551329447117 / 2 ^ 47) + real_of_int 4636948397587169 / 2 ^ 46)
             = real_of_int (5360690931454442) / 2 ^ 48"
    by (rule fl_eqI) simp_all
  have e: "d_add (- fl 46.85) (d_mul (d_div (fl (real_of_int 24576)) 65536) (fl 175.72))
          = real_of_int (5360690931454442) / 2 ^ 48"
    by (rule celsius_at [OF _ _ p x]) simp_all
  show ?thesis unfolding e by (simp add: roundTo_def)
qed

lemma celsius_0xa000:
  "roundTo (Some (d_add (- fl 46.85) (d_mul (d_div (fl (real_of_int 40960)) 65536) (fl 175.72)))) 2
     = Some (62.98)"
proof -
  have p: "fl (real_of_int 40960 / 65536 * (6182597863449559 / 2 ^ 45))
             = real_of_int 7728247329311949 / 2 ^ 46"
    by (rule fl_eqI) simp_all
  have x: "fl (- (6593551329447117 / 2 ^ 47) + real_of_int 7728247329311949 / 2 ^ 46)
             = real_of_int (8862943329176781) / 2 ^ 47"
    by (rule fl_eqI) simp_all
  have e: "d_add (- fl 46.85) (d_mul (d_div (fl (real_of_int 40960)) 65536) (fl 175.72))
          = real_of_int (8862943329176781) / 2 ^ 47"
    by (rule celsius_at [OF _ _ p x]) simp_all
  show ?thesis unfolding e by (simp add: roundTo_def)
qed

lemma celsius_0xe000:
  "roundTo (Some (d_add (- fl 46.85) (d_mul (d_div (fl (real_of_int 57344)) 65536) (fl 175.72)))) 2
     = Some (106.91)"
proof -
  have p: "fl (real_of_int 57344 / 65536 * (6182597863449559 / 2 ^ 45))
             = real_of_int 5409773130518364 / 2 ^ 45"
    by (rule fl_eqI) simp_all
  have x: "fl (- (6593551329447117 / 2 ^ 47) + real_of_int 5409773130518364 / 2 ^ 45)
             = real_of_int (7522770596313170) / 2 ^ 46"
    by (rule fl_roundI) (simp_all add: roundEven_def)
  have e: "d_add (- fl 46.85) (d_mul (d_div (fl (real_of_int 57344)) 65536) (fl 175.72))
          = real_of_int (7522770596313170) / 2 ^ 46"
    by (rule celsius_at [OF _ _ p x]) simp_all
  show ?thesis unfolding e by (simp add: roundTo_def)
qed

lemma celsius_code:
  assumes "0 \<le> t" and "t < 65536" and "t \<noteq> 8192" and "t \<noteq> 24576"
  shows "roundTo (Some (d_add (- fl 46.85)
                          (d_mul (d_div (fl (real_of_int t)) 65536) (fl 175.72)))) 2
           = Some (spec_celsius (real_of_int t))"
proof (cases "(4393 * t - 76750848) mod 16384 = 0")
  case False
  with assms(1,2) show ?thesis by (rule celsius_formula)
next
  case True
  with assms have "t = 40960 \<or> t = 57344"
    using tie_inputs [of t] by simp
  then show ?thesis
  proof
    assume "t = 40960"
    then show ?thesis
      using celsius_0xa000 by (simp add: spec_celsius_def round2_def)
  next
    assume "t = 57344"
    then show ?thesis
      using celsius_0xe000 by (simp add: spec_celsius_def round2_def)
  qed
qed

lemma spec_celsius_decimal:
  assumes "0 \<le> t" and "t < 65536"
  shows "\<exists>n. \<bar>n\<bar> \<le> 13000 \<and> spec_celsius (real_of_int t) = real_of_int n / 100"
proof -
  define y where "y = (- 46.85 + (real_of_int t / 65536) * 175.72) * 100 + 1 / 2"
  have "- 13000 \<le> y" "y < 13000"
    using assms by (simp_all add: y_def field_simps)
  then have "- 13000 \<le> \<lfloor>y\<rfloor>" "\<lfloor>y\<rfloor> < 13000"
    by (simp_all add: le_floor_iff floor_less_iff)
  then have "\<bar>\<lfloor>y\<rfloor>\<bar> \<le> 13000" by linarith
  moreover have "spec_celsius (real_of_int t) = real_of_int \<lfloor>y\<rfloor> / 100"
    by (simp add: spec_celsius_def round2_def y_def)
  ultimately show ?thesis by blast
qed

lemma fl_9_5: "d_div 9 5 = 8106479329266893 / 2 ^ 52"
  unfolding d_div_def using fl_eqI [of "9 / 5" 52 8106479329266893] by simp

lemma fahrenheit_chain:
  fixes s m w v k :: real
  shows "\<bar>s - (k + 32)\<bar> \<le> \<bar>s - (m + 32)\<bar> + \<bar>m - w\<bar> + \<bar>w - v\<bar> + \<bar>v - k\<bar>"
  by linarith

lemma fahrenheit_error:
  assumes "\<bar>c\<bar> \<le> 130"
  shows "\<bar>d_add (d_mul (fl c) (d_div 9 5)) 32 - (c * 9 / 5 + 32)\<bar> \<le> 1 / 2 ^ 42"
proof -
  define f where "f = fl c"
  define g :: real where "g = 8106479329266893 / 2 ^ 52"
  define m where "m = fl (f * g)"
  define s where "s = fl (m + 32)"
  have code: "d_add (d_mul (fl c) (d_div 9 5)) 32 = s"
    unfolding d_add_def d_mul_def fl_9_5 s_def m_def f_def g_def by (rule refl)
  have g: "0 \<le> g" "g \<le> 2" "\<bar>g - 9 / 5\<bar> \<le> 1 / 2 ^ 52"
    by (simp_all add: g_def)
  have "\<bar>f - c\<bar> \<le> (130 + 1) / 2 ^ 53"
    unfolding f_def using assms by (rule fl_error_bound)
  then have ferr: "\<bar>f - c\<bar> \<le> 131 / 2 ^ 53" by simp
  have tiny: "(131::real) / 2 ^ 53 \<le> 1" by simp
  have fabs: "\<bar>f\<bar> \<le> 131" using ferr assms tiny by linarith
  have "\<bar>f * g\<bar> = \<bar>f\<bar> * g" using g(1) by (simp add: abs_mult)
  also have "\<dots> \<le> 131 * 2"
    using fabs g by (intro mult_mono) simp_all
  finally have fg: "\<bar>f * g\<bar> \<le> 262" by simp
  have "\<bar>m - f * g\<bar> \<le> (262 + 1) / 2 ^ 53"
    unfolding m_def using fg by (rule fl_error_bound)
  then have merr: "\<bar>m - f * g\<bar> \<le> 263 / 2 ^ 53" by simp
  have tiny2: "(263::real) / 2 ^ 53 \<le> 1" by simp
  have mabs: "\<bar>m + 32\<bar> \<le> 295" using merr fg tiny2 by linarith
  then have "\<bar>s - (m + 32)\<bar> \<le> (295 + 1) / 2 ^ 53"
    unfolding s_def by (rule fl_error_bound)
  then have serr: "\<bar>s - (m + 32)\<bar> \<le> 296 / 2 ^ 53" by simp
  have "f * g - f * (9 / 5) = f * (g - 9 / 5)"
    by (simp add: algebra_simps)
  then have "\<bar>f * g - f * (9 / 5)\<bar> = \<bar>f\<bar> * \<bar>g - 9 / 5\<bar>"
    by (simp only: abs_mult)
  also have "\<dots> \<le> 132 * (1 / 2 ^ 52)"
    using fabs g(3) by (intro mult_mono) simp_all
  finally have gerr: "\<bar>f * g - f * (9 / 5)\<bar> \<le> 132 / 2 ^ 52" by simp
  have eq: "f * (9 / 5) - c * (9 / 5) = (f - c) * (9 / 5)"
    by (simp add: algebra_simps)
  have "\<bar>(f - c) * (9 / 5)\<bar> = \<bar>f - c\<bar> * \<bar>9 / 5 :: real\<bar>"
    by (rule abs_mult)
  also have "\<dots> \<le> (131 / 2 ^ 53) * \<bar>9 / 5 :: real\<bar>"
    using ferr by (intro mult_right_mono) simp_all
  finally have "\<bar>(f - c) * (9 / 5)\<bar> \<le> 236 / 2 ^ 53" by simp
  then have cerr: "\<bar>f * (9 / 5) - c * (9 / 5)\<bar> \<le> 236 / 2 ^ 53"
    by (simp only: eq)
  have "\<bar>s - (c * (9 / 5) + 32)\<bar>
          \<le> \<bar>s - (m + 32)\<bar> + \<bar>m - f * g\<bar> + \<bar>f * g - f * (9 / 5)\<bar>
              + \<bar>f * (9 / 5) - c * (9 / 5)\<bar>"
    by (rule fahrenheit_chain)
  also have "\<dots> \<le> 296 / 2 ^ 53 + 263 / 2 ^ 53 + 132 / 2 ^ 52 + 236 / 2 ^ 53"
    using serr merr gerr cerr by linarith
  also have "\<dots> \<le> 1 / 2 ^ 42" by simp
  finally have "\<bar>s - (c * (9 / 5) + 32)\<bar> \<le> 1 / 2 ^ 42" .
  then show ?thesis unfolding code by simp
qed

lemma fahrenheit_formula:
  assumes "\<bar>n\<bar> \<le> 13000"
  shows "roundTo (Some (d_add (d_mul (fl (real_of_int n / 100)) (d_div 9 5)) 32)) 2
           = Some (spec_fahrenheit (real_of_int n / 100))"
proof -
  define c where "c = real_of_int n / 100"
  define x where "x = d_add (d_mul (fl c) (d_div 9 5)) 32"
  define r where "r = c * 9 / 5 + 32"
  define \<delta> where "\<delta> = 100 * (x - r)"
  have "\<bar>c\<bar> \<le> 130" using assms by (simp add: c_def)
  then have "\<bar>x - r\<bar> \<le> 1 / 2 ^ 42"
    unfolding x_def r_def by (rule fahrenheit_error)
  moreover have "\<bar>\<delta>\<bar> = 100 * \<bar>x - r\<bar>"
    unfolding \<delta>_def abs_mult by simp
  ultimately have small: "\<bar>\<delta>\<bar> < 1 / real_of_int 10"
    by simp
  have odd: "(18 * n + 32005) mod 10 \<noteq> 0" by presburger
  have grid: "r * 100 + 1 / 2 = real_of_int (18 * n + 32005) / real_of_int 10"
    by (simp add: r_def c_def field_simps)
  have shifted: "x * 100 + 1 / 2 = real_of_int (18 * n + 32005) / real_of_int 10 + \<delta>"
    unfolding grid [symmetric] \<delta>_def by (simp add: algebra_simps)
  have "\<lfloor>x * 100 + 1 / 2\<rfloor> = \<lfloor>r * 100 + 1 / 2\<rfloor>"
    unfolding shifted grid by (rule floor_grid [OF _ odd small]) simp
  then show ?thesis
    unfolding x_def r_def c_def roundTo_def spec_fahrenheit_def round2_def by simp
qed

lemma humidity_formula:
  assumes "0 \<le> h" and "h < 65536"
  shows "roundTo (Some (d_add (- 6) (d_mul 125 (d_div (fl (real_of_int h)) 65536)))) 2
           = Some (spec_humidity (real_of_int h))"
proof -
  have "\<bar>125 * h\<bar> < 2 ^ 53" using assms by simp
  then have "fl (real_of_int (125 * h) / 2 ^ 16) = real_of_int (125 * h) / 2 ^ 16"
    by (rule fl_exact) simp
  then have product: "d_mul 125 (real_of_int h / 65536) = 125 * (real_of_int h / 65536)"
    by (simp add: d_mul_def)
  have "\<bar>125 * h - 393216\<bar> < 2 ^ 53" using assms by simp
  then have "fl (real_of_int (125 * h - 393216) / 2 ^ 16)
               = real_of_int (125 * h - 393216) / 2 ^ 16"
    by (rule fl_exact) simp
  moreover have "real_of_int (125 * h - 393216) / 2 ^ 16 = - 6 + 125 * (real_of_int h / 65536)"
    by simp
  ultimately have sum: "d_add (- 6) (125 * (real_of_int h / 65536))
                          = - 6 + 125 * (real_of_int h / 65536)"
    by (simp only: d_add_def)
  show ?thesis
    unfolding raw_quotient [OF assms] product sum
    by (simp add: roundTo_def spec_humidity_def round2_def)
qed

lemma calculateTemperature_formula:
  assumes "parseInt16 raw = Some t" and "0 \<le> t" and "t < 65536"
      and "t \<noteq> 8192" and "t \<noteq> 24576"
  shows "calculateTemperature p raw =
           (if useFahrenheitTemps p
            then [(''temperature'', JNumber (Some (spec_fahrenheit (spec_celsius (real_of_int t))))),
                  (''temperatureUnit'', JString ''F'')]
            else [(''temperature'', JNumber (Some (spec_celsius (real_of_int t)))),
                  (''temperatureUnit'', JString ''C'')])"
proof -
  obtain n where n: "\<bar>n\<bar> \<le> 13000" "spec_celsius (real_of_int t) = real_of_int n / 100"
    using spec_celsius_decimal [OF assms(2,3)] by blast
  show ?thesis
    unfolding calculateTemperature_def assms(1) option.map celsius_code [OF assms(2-5)] Let_def
      n(2) fahrenheit_formula [OF n(1)]
    by simp
qed

lemma calculateHumidity_formula:
  assumes "parseInt16 raw = Some h" and "0 \<le> h" and "h < 65536"
  shows "calculateHumidity raw = Some (spec_humidity (real_of_int h))"
  unfolding calculateHumidity_def assms(1) option.map humidity_formula [OF assms(2,3)]
  by (rule refl)

lemma parseInt16_8000: "parseInt16 ''8000'' = Some 32768"
  by (simp add: js_defs)

lemma parseInt16_4000: "parseInt16 ''4000'' = Some 16384"
  by (simp add: js_defs)

lemma parseInt16_2000: "parseInt16 ''2000'' = Some 8192"
  by (simp add: js_defs)

lemma parseInt16_6000: "parseInt16 ''6000'' = Some 24576"
  by (simp add: js_defs)

lemma calculateTemperature_8000:
  "calculateTemperature p ''8000'' =
     (if useFahrenheitTemps p
      then [(''temperature'', JNumber (Some 105.82)), (''temperatureUnit'', JString ''F'')]
      else [(''temperature'', JNumber (Some 41.01)), (''temperatureUnit'', JString ''C'')])"
  using calculateTemperature_formula [OF parseInt16_8000, of p]
  by (simp add: spec_celsius_def spec_fahrenheit_def round2_def)

lemma calculateHumidity_4000: "calculateHumidity ''4000'' = Some 25.25"
  using calculateHumidity_formula [OF parseInt16_4000]
  by (simp add: spec_humidity_def round2_def)

lemma calculateTemperature_2000:
  "calculateTemperature p ''2000'' =
     (if useFahrenheitTemps p
      then [(''temperature'', JNumber (Some (- 12.8))), (''temperatureUnit'', JString ''F'')]
      else [(''temperature'', JNumber (Some (- 24.89))), (''temperatureUnit'', JString ''C'')])"
proof -
  have c: "(- 24.89 :: real) = real_of_int (- 2489) / 100" by simp
  have n: "\<bar>- 2489\<bar> \<le> (13000 :: int)" by simp
  have f: "roundTo (Some (d_add (d_mul (fl (- 24.89)) (d_div 9 5)) 32)) 2 = Some (- 12.8)"
    unfolding c fahrenheit_formula [OF n] by (simp add: spec_fahrenheit_def round2_def)
  show ?thesis
    unfolding calculateTemperature_def parseInt16_2000 option.map celsius_0x2000 Let_def f
    by simp
qed

lemma calculateTemperature_6000:
  "calculateTemperature p ''6000'' =
     (if useFahrenheitTemps p
      then [(''temperature'', JNumber (Some 66.27)), (''temperatureUnit'', JString ''F'')]
      else [(''temperature'', JNumber (Some 19.04)), (''temperatureUnit'', JString ''C'')])"
proof -
  have c: "(19.04 :: real) = real_of_int 1904 / 100" by simp
  have n: "\<bar>1904\<bar> \<le> (13000 :: int)" by simp
  have f: "roundTo (Some (d_add (d_mul (fl 19.04) (d_div 9 5)) 32)) 2 = Some 66.27"
    unfolding c fahrenheit_formula [OF n] by (simp add: spec_fahrenheit_def round2_def)
  show ?thesis
    unfolding calculateTemperature_def parseInt16_6000 option.map celsius_0x6000 Let_def f
    by simp
qed

lemma celsius_decimal:
  assumes "0 \<le> t" and "t < 65536"
  shows "\<exists>n. \<bar>n\<bar> \<le> 13000
           \<and> roundTo (Some (d_add (- fl 46.85)
                                (d_mul (d_div (fl (real_of_int t)) 65536) (fl 175.72)))) 2
               = Some (real_of_int n / 100)"
proof (cases "t = 8192 \<or> t = 24576")
  case False
  then have "roundTo (Some (d_add (- fl 46.85)
                              (d_mul (d_div (fl (real_of_int t)) 65536) (fl 175.72)))) 2
               = Some (spec_celsius (real_of_int t))"
    using assms by (intro celsius_code) simp_all
  with spec_celsius_decimal [OF assms] show ?thesis by auto
next
  case True
  then show ?thesis
  proof
    assume t: "t = 8192"
    have "\<bar>- 2489\<bar> \<le> (13000::int)" "(- 24.89 :: real) = real_of_int (- 2489) / 100"
      by simp_all
    then show ?thesis unfolding t celsius_0x2000 by blast
  next
    assume t: "t = 24576"
    have "\<bar>1904\<bar> \<le> (13000::int)" "(19.04 :: real) = real_of_int 1904 / 100"
      by simp_all
    then show ?thesis unfolding t celsius_0x6000 by blast
  qed
qed

lemma calculateTemperature_conversion:
  assumes "parseInt16 raw = Some t" and "0 \<le> t" and "t < 65536"
  shows "\<exists>c. calculateTemperature (p\<lparr>useFahrenheitTemps := False\<rparr>) raw =
               [(''temperature'', JNumber (Some c)), (''temperatureUnit'', JString ''C'')]
           \<and> calculateTemperature (p\<lparr>useFahrenheitTemps := True\<rparr>) raw =
               [(''temperature'', JNumber (Some (spec_fahrenheit c))),
                (''temperatureUnit'', JString ''F'')]"
proof -
  obtain n where n: "\<bar>n\<bar> \<le> 13000"
      "roundTo (Some (d_add (- fl 46.85)
                        (d_mul (d_div (fl (real_of_int t)) 65536) (fl 175.72)))) 2
         = Some (real_of_int n / 100)"
    using celsius_decimal [OF assms(2,3)] by blast
  have "calculateTemperature (p\<lparr>useFahrenheitTemps := False\<rparr>) raw =
          [(''temperature'', JNumber (Some (real_of_int n / 100))),
           (''temperatureUnit'', JString ''C'')]"
    unfolding calculateTemperature_def assms(1) option.map n(2) Let_def by simp
  moreover have "calculateTemperature (p\<lparr>useFahrenheitTemps := True\<rparr>) raw =
          [(''temperature'', JNumber (Some (spec_fahrenheit (real_of_int n / 100)))),
           (''temperatureUnit'', JString ''F'')]"
    unfolding calculateTemperature_def assms(1) option.map n(2) Let_def
      fahrenheit_formula [OF n(1)]
    by simp
  ultimately show ?thesis by blast
qed

lemma hex_digit_plain:
  assumes "hexDigitValue c = Some d"
  shows "d < 16" and "\<not> isWhiteSpace c" and "c \<noteq> CHR ''+''" and "c \<noteq> CHR ''-''"
    and "c \<noteq> CHR ''x''" and "c \<noteq> CHR ''X''"
  using assms by (auto simp add: hexDigitValue_def isWhiteSpace_def Let_def split: if_splits)

lemma parseInt16_four_digits:
  assumes "hexDigitValue a = Some x" and "hexDigitValue b = Some y"
      and "hexDigitValue c = Some z" and "hexDigitValue d = Some w"
  shows "\<exists>t. parseInt16 [a, b, c, d] = Some t \<and> 0 \<le> t \<and> t < 65536"
proof -
  have "parseInt16 [a, b, c, d] = Some (int (16 * (16 * (16 * x + y) + z) + w))"
    using assms hex_digit_plain(2-4) [OF assms(1)] hex_digit_plain(5,6) [OF assms(2)]
    by (simp add: parseInt16_def startsWith_def Let_def)
  moreover have "16 * (16 * (16 * x + y) + z) + w < 65536"
    using hex_digit_plain(1) [OF assms(1)] hex_digit_plain(1) [OF assms(2)]
      hex_digit_plain(1) [OF assms(3)] hex_digit_plain(1) [OF assms(4)]
    by (simp add: algebra_simps)
  ultimately show ?thesis by simp
qed

text \<open>
  C5, as amended. \<open>calculateTemperature\<close> and \<open>calculateHumidity\<close> are functions of the
  raw 16-bit hexadecimal input and the Fahrenheit flag alone, and the code evaluates the
  formulas in double precision. For every raw 16-bit value \<open>t\<close> other than 0x2000 and
  0x6000 the Celsius temperature is \<open>round2(-46.85 + (t/65536)*175.72)\<close>; at these two
  inputs the exact value is a tie (-24.885 and 19.045), the double is just below it, and
  the code gives -24.89 and 19.04. For every raw 16-bit value the Fahrenheit temperature
  is \<open>round2(celsius*9/5 + 32)\<close> of the Celsius value that the code gives, and the
  humidity is \<open>round2(-6 + 125*(t/65536))\<close>. The raw temperature 0x8000 yields 41.01
  degrees Celsius and the raw humidity 0x4000 yields 25.25.
\<close>

theorem calculate_formulas:
  "(parseInt16 raw = Some t \<and> 0 \<le> t \<and> t < 65536 \<longrightarrow>
      (t \<noteq> 8192 \<and> t \<noteq> 24576 \<longrightarrow>
         calculateTemperature p raw =
           (if useFahrenheitTemps p
            then [(''temperature'', JNumber (Some (spec_fahrenheit (spec_celsius (real_of_int t))))),
                  (''temperatureUnit'', JString ''F'')]
            else [(''temperature'', JNumber (Some (spec_celsius (real_of_int t)))),
                  (''temperatureUnit'', JString ''C'')]))
      \<and> (\<exists>c. calculateTemperature (p\<lparr>useFahrenheitTemps := False\<rparr>) raw =
                 [(''temperature'', JNumber (Some c)), (''temperatureUnit'', JString ''C'')]
             \<and> calculateTemperature (p\<lparr>useFahrenheitTemps := True\<rparr>) raw =
                 [(''temperature'', JNumber (Some (spec_fahrenheit c))),
                  (''temperatureUnit'', JString ''F'')])
      \<and> calculateHumidity raw = Some (spec_humidity (real_of_int t)))
   \<and> calculateTemperature defaultParams ''8000'' =
       [(''temperature'', JNumber (Some 41.01)), (''temperatureUnit'', JString ''C'')]
   \<and> calculateHumidity ''4000'' = Some 25.25
   \<and> calculateTemperature defaultParams ''2000'' =
       [(''temperature'', JNumber (Some (- 24.89))), (''temperatureUnit'', JString ''C'')]
   \<and> calculateTemperature defaultParams ''6000'' =
       [(''temperature'', JNumber (Some 19.04)), (''temperatureUnit'', JString ''C'')]"
proof -
  have general: "(t \<noteq> 8192 \<and> t \<noteq> 24576 \<longrightarrow>
         calculateTemperature p raw =
           (if useFahrenheitTemps p
            then [(''temperature'', JNumber (Some (spec_fahrenheit (spec_celsius (real_of_int t))))),
                  (''temperatureUnit'', JString ''F'')]
            else [(''temperature'', JNumber (Some (spec_celsius (real_of_int t)))),
                  (''temperatureUnit'', JString ''C'')]))
      \<and> (\<exists>c. calculateTemperature (p\<lparr>useFahrenheitTemps := False\<rparr>) raw =
                 [(''temperature'', JNumber (Some c)), (''temperatureUnit'', JString ''C'')]
             \<and> calculateTemperature (p\<lparr>useFahrenheitTemps := True\<rparr>) raw =
                 [(''temperature'', JNumber (Some (spec_fahrenheit c))),
                  (''temperatureUnit'', JString ''F'')])
      \<and> calculateHumidity raw = Some (spec_humidity (real_of_int t))"
    if raw: "parseInt16 raw = Some t" and lo: "0 \<le> t" and hi: "t < 65536"
  proof (rule conjI [OF _ conjI])
    show "t \<noteq> 8192 \<and> t \<noteq> 24576 \<longrightarrow>
         calculateTemperature p raw =
           (if useFahrenheitTemps p
            then [(''temperature'', JNumber (Some (spec_fahrenheit (spec_celsius (real_of_int t))))),
                  (''temperatureUnit'', JString ''F'')]
            else [(''temperature'', JNumber (Some (spec_celsius (real_of_int t)))),
                  (''temperatureUnit'', JString ''C'')])"
      using calculateTemperature_formula [OF raw lo hi] by blast
    show "\<exists>c. calculateTemperature (p\<lparr>useFahrenheitTemps := False\<rparr>) raw =
                 [(''temperature'', JNumber (Some c)), (''temperatureUnit'', JString ''C'')]
             \<and> calculateTemperature (p\<lparr>useFahrenheitTemps := True\<rparr>) raw =
                 [(''temperature'', JNumber (Some (spec_fahrenheit c))),
                  (''temperatureUnit'', JString ''F'')]"
      using raw lo hi by (rule calculateTemperature_conversion)
    show "calculateHumidity raw = Some (spec_humidity (real_of_int t))"
      using raw lo hi by (rule calculateHumidity_formula)
  qed
  have flag: "\<not> useFahrenheitTemps defaultParams"
    by (simp add: defaultParams_def)
  have "calculateTemperature defaultParams ''8000'' =
       [(''temperature'', JNumber (Some 41.01)), (''temperatureUnit'', JString ''C'')]"
    using flag by (simp add: calculateTemperature_8000)
  moreover have "calculateTemperature defaultParams ''2000'' =
       [(''temperature'', JNumber (Some (- 24.89))), (''temperatureUnit'', JString ''C'')]"
    using flag by (simp add: calculateTemperature_2000)
  moreover have "calculateTemperature defaultParams ''6000'' =
       [(''temperature'', JNumber (Some 19.04)), (''temperatureUnit'', JString ''C'')]"
    using flag by (simp add: calculateTemperature_6000)
  ultimately show ?thesis
    using general calculateHumidity_4000 by blast
qed

theorem calculate_formulas_witness:
  "parseInt16 ''8000'' = Some 32768
   \<and> calculateTemperature (defaultParams\<lparr>useFahrenheitTemps := True\<rparr>) ''8000'' =
       [(''temperature'', JNumber (Some 105.82)), (''temperatureUnit'', JString ''F'')]
   \<and> calculateHumidity ''8000'' = Some 56.5"
proof -
  have raw: "parseInt16 ''8000'' = Some 32768" by (simp add: js_defs)
  show ?thesis
    using raw calculate_formulas
      [of "''8000''" 32768 "defaultParams\<lparr>useFahrenheitTemps := True\<rparr>"]
    by (simp add: spec_celsius_def spec_fahrenheit_def spec_humidity_def round2_def)
qed

theorem calculate_examples_counterexample:
  "calculateTemperature defaultParams ''8000'' \<noteq>
     [(''temperature'', JNumber (Some 41.52)), (''temperatureUnit'', JString ''C'')]
   \<and> calculateHumidity ''4000'' \<noteq> Some 25.0
   \<and> parseInt16 ''6000'' = Some 24576
   \<and> calculateTemperature defaultParams ''6000'' \<noteq>
       [(''temperature'', JNumber (Some (spec_celsius 24576))), (''temperatureUnit'', JString ''C'')]
   \<and> parseInt16 ''2000'' = Some 8192
   \<and> calculateTemperature defaultParams ''2000'' \<noteq>
       [(''temperature'', JNumber (Some (spec_celsius 8192))), (''temperatureUnit'', JString ''C'')]"
  by (simp add: calculateTemperature_8000 calculateHumidity_4000 calculateTemperature_6000
      calculateTemperature_2000 parseInt16_6000 parseInt16_2000 defaultParams_def
      spec_celsius_def round2_def)

section \<open>The stages of parseMessage\<close>

lemma registered_type:
  assumes "MESSAGE_TYPES mt = Some name"
  shows "mt \<notin> set IGNORABLE_MESSAGE_TYPES" and "length name \<noteq> 0"
  using assms
  by (auto simp: MESSAGE_TYPES_def IGNORABLE_MESSAGE_TYPES_def split: if_splits)

lemma parseMessage_accepted:
  assumes "headerType (withoutCrc fullMessage) = 0"
      and "payloadType (withoutCrc fullMessage) = 32"
      and "MESSAGE_TYPES (messageTypeOf (withoutCrc fullMessage)) = Some name"
  shows "parseMessage p now c fullMessage =
           (if deDuplicateBursts p
            then (if \<not> cache_get c (cacheKeyOf (withoutCrc fullMessage))
                  then (deliver p now fullMessage (withoutCrc fullMessage) name,
                        cache_set c now (cacheKeyOf (withoutCrc fullMessage)))
                  else (Dropped DuplicateBurst, c))
            else (deliver p now fullMessage (withoutCrc fullMessage) name, c))"
  using assms registered_type [OF assms(3)]
  by (simp add: parseMessage_def Let_def)

lemma type_newMessage: "type (newMessage p now fullMessage data name) = name"
  by (simp add: newMessage_def Let_def)

text \<open>
  C2. If the first byte of a frame record has bit 7 set (\<open>value & 0x80\<close> is not 0) or its
  bits 5 and 6 are not the simple-payload value (\<open>value & 0x60\<close> is not 32), then
  \<open>parseMessage\<close> returns without calling \<open>onSensorMessage\<close> and without an exception,
  whatever the rest of the record holds.
\<close>

theorem parseMessage_rejects_header:
  assumes "headerType (withoutCrc fullMessage) \<noteq> 0
             \<or> payloadType (withoutCrc fullMessage) \<noteq> 32"
  shows "parseMessage p now c fullMessage =
           (if headerType (withoutCrc fullMessage) \<noteq> 0 then Dropped ExtendedHeader
            else Dropped UnsupportedPayloadType, c)"
  using assms by (auto simp: parseMessage_def Let_def)

theorem parseMessage_rejects_header_witness:
  "parseMessage defaultParams 5000 Map.empty ''a6000000123404301d80004000CRCC'' =
     (Dropped ExtendedHeader, Map.empty)
   \<and> parseMessage defaultParams 5000 Map.empty ''46000000123404301d80004000CRCC'' =
     (Dropped UnsupportedPayloadType, Map.empty)"
  using parseMessage_rejects_header
          [of "''a6000000123404301d80004000CRCC''" defaultParams 5000 Map.empty]
        parseMessage_rejects_header
          [of "''46000000123404301d80004000CRCC''" defaultParams 5000 Map.empty]
  by (simp add: frame_defs js_defs)

section \<open>Ignorable and unregistered types\<close>

text \<open>
  C4. A frame whose type code is ignorable (33, 34, 35) or not in the registry is to be
  dropped without a callback and without an exception under every configuration. With
  \<open>debugMode\<close> on, an ignorable type makes \<open>parseMessage\<close> throw instead: the log line
  reads the undeclared variable \<open>fullMesage\<close>.
\<close>

theorem ignorable_type_throws_in_debugMode:
  "parseMessage (defaultParams\<lparr>debugMode := True\<rparr>) 5000 Map.empty
     ''26000000123401331d00CRCC'' = (Threw (ReferenceError ''fullMesage''), Map.empty)"
  by (simp add: parseMessage_def frame_defs js_defs table_defs defaultParams_def)

lemma ignorable_type:
  assumes "headerType (withoutCrc fullMessage) = 0"
      and "payloadType (withoutCrc fullMessage) = 32"
      and "messageTypeOf (withoutCrc fullMessage) \<in> set IGNORABLE_MESSAGE_TYPES"
  shows "parseMessage p now c fullMessage =
           (if debugMode p then Threw (ReferenceError ''fullMesage'')
            else Dropped IgnorableType, c)"
  using assms by (simp add: parseMessage_def Let_def)

lemma unregistered_type:
  assumes "messageTypeOf (withoutCrc fullMessage) \<notin> set IGNORABLE_MESSAGE_TYPES"
      and "MESSAGE_TYPES (messageTypeOf (withoutCrc fullMessage)) = None"
  shows "\<exists>reason. parseMessage p now c fullMessage = (Dropped reason, c)"
  using assms by (simp add: parseMessage_def Let_def)

section \<open>Delivery without a decoded payload\<close>

text \<open>
  C10. When \<open>sendDecodedPayload\<close> is false, every frame that passes the header, registry
  and deduplication checks is delivered to \<open>onSensorMessage\<close> with the payload field
  removed and under the type name of the registry: no second-stage filter runs, so boot
  frames are delivered even when \<open>sendBootMessages\<close> is false, status frames even when
  \<open>sendStatusMessages\<close> is false and without the Status suffix, and rs485Config frames
  whatever the length of their payload.
\<close>

theorem undecoded_payload_bypasses_filters:
  assumes "\<not> sendDecodedPayload p"
      and "headerType (withoutCrc fullMessage) = 0"
      and "payloadType (withoutCrc fullMessage) = 32"
      and "MESSAGE_TYPES (messageTypeOf (withoutCrc fullMessage)) = Some name"
      and "deDuplicateBursts p \<longrightarrow> \<not> cache_get c (cacheKeyOf (withoutCrc fullMessage))"
  shows "\<exists>m. fst (parseMessage p now c fullMessage) = Delivered m \<and> payload m = None
           \<and> type m = name \<and> sensorId m = sourceAddrOf (withoutCrc fullMessage)
           \<and> sequenceNumber m = sequenceNumberOf (withoutCrc fullMessage)"
  using assms
  by (simp add: parseMessage_accepted deliver_def Let_def newMessage_def)

theorem undecoded_payload_bypasses_filters_witness:
  "\<exists>m. fst (parseMessage
              (defaultParams\<lparr>sendBootMessages := False, sendDecodedPayload := False\<rparr>)
              5000 Map.empty ''26000000123401601d01CRCC'') = Delivered m
       \<and> payload m = None \<and> type m = ''boot'' \<and> sensorId m = ''1234''
       \<and> sequenceNumber m = Some 0"
  using undecoded_payload_bypasses_filters
          [of "defaultParams\<lparr>sendBootMessages := False, sendDecodedPayload := False\<rparr>"
              "''26000000123401601d01CRCC''" "''boot''" Map.empty 5000]
  by (simp add: frame_defs js_defs MESSAGE_TYPES_def cache_get_def defaultParams_def)

lemma undecoded_motion_status_example:
  "fst (parseMessage (defaultParams\<lparr>sendDecodedPayload := False\<rparr>) 5000 Map.empty
          ''26000000123401321d20CRCC'') =
     Delivered \<lparr>type = ''motion'', payload = None, sensorId = ''1234'',
        sequenceNumber = Some 0, timestamp = 5, numHops = None, maxHops = None,
        rawData = None\<rparr>"
  by (simp add: parseMessage_def frame_defs js_defs table_defs message_defs defaultParams_def)

lemma undecoded_rs485Config_example:
  "fst (parseMessage (defaultParams\<lparr>sendDecodedPayload := False\<rparr>) 5000 Map.empty
          ''26000000123401701d00CRCC'') =
     Delivered \<lparr>type = ''rs485Config'', payload = None, sensorId = ''1234'',
        sequenceNumber = Some 0, timestamp = 5, numHops = None, maxHops = None,
        rawData = None\<rparr>"
  by (simp add: parseMessage_def frame_defs js_defs table_defs message_defs defaultParams_def)

section \<open>Boot messages\<close>

lemma deliver_boot:
  assumes "sendDecodedPayload p"
  shows "deliver p now fullMessage data ''boot'' =
           (if sendBootMessages p
            then Delivered ((newMessage p now fullMessage data ''boot'')
                   \<lparr>payload := Some [(''battery'', JNumber (batteryOf data)),
                       (''resetCause'', JString (spec_resetCause (messageDataOf data)))]\<rparr>)
            else Dropped BootSuppressed)"
  using assms
  by (simp add: deliver_def decodePayload_def decode_boot_def setPayload_def assignPayload_def
      newMessage_def spec_resetCause_def Let_def)

lemma registry_boot: "MESSAGE_TYPES ''60'' = Some ''boot''"
  by (simp add: MESSAGE_TYPES_def)

text \<open>
  C7, as amended. For every inbound frame of type boot (code 60) that is processed with
  \<open>sendDecodedPayload\<close> enabled, the message is delivered to \<open>onSensorMessage\<close> only when
  \<open>sendBootMessages\<close> is enabled, and when delivered its payload \<open>resetCause\<close> maps the
  message data 00 to powerOn, 01 to externalReset, 02 to watchdogReset and anything else
  to unknown.
\<close>

theorem boot_delivery:
  assumes "sendDecodedPayload p"
      and "headerType (withoutCrc fullMessage) = 0"
      and "payloadType (withoutCrc fullMessage) = 32"
      and "messageTypeOf (withoutCrc fullMessage) = ''60''"
  shows "(fst (parseMessage p now c fullMessage) = Delivered m \<longrightarrow>
            sendBootMessages p \<and> type m = ''boot''
            \<and> payload m = Some [(''battery'', JNumber (batteryOf (withoutCrc fullMessage))),
                 (''resetCause'',
                  JString (spec_resetCause (messageDataOf (withoutCrc fullMessage))))])
       \<and> (\<not> sendBootMessages p \<longrightarrow>
            fst (parseMessage p now c fullMessage) = Dropped BootSuppressed
            \<or> fst (parseMessage p now c fullMessage) = Dropped DuplicateBurst)"
proof -
  have reg: "MESSAGE_TYPES (messageTypeOf (withoutCrc fullMessage)) = Some ''boot''"
    using assms(4) registry_boot by simp
  show ?thesis
    by (auto simp: parseMessage_accepted [OF assms(2,3) reg] deliver_boot [OF assms(1)]
        type_newMessage split: if_splits)
qed

theorem boot_delivery_witness:
  "fst (parseMessage defaultParams 5000 Map.empty ''26000000123401601d01CRCC'') =
     Delivered \<lparr>type = ''boot'',
        payload = Some [(''battery'', JNumber (Some 2.9)),
                        (''resetCause'', JString ''externalReset'')],
        sensorId = ''1234'', sequenceNumber = Some 0, timestamp = 5,
        numHops = None, maxHops = None, rawData = None\<rparr>
   \<and> sendBootMessages defaultParams
   \<and> fst (parseMessage (defaultParams\<lparr>sendBootMessages := False\<rparr>) 5000 Map.empty
           ''26000000123401601d01CRCC'') = Dropped BootSuppressed"
proof -
  let ?f = "''26000000123401601d01CRCC''"
  let ?m = "\<lparr>type = ''boot'',
        payload = Some [(''battery'', JNumber (Some 2.9)),
                        (''resetCause'', JString ''externalReset'')],
        sensorId = ''1234'', sequenceNumber = Some 0, timestamp = 5,
        numHops = None, maxHops = None, rawData = None\<rparr>"
  have h: "headerType (withoutCrc ?f) = 0" "payloadType (withoutCrc ?f) = 32"
    "messageTypeOf (withoutCrc ?f) = ''60''"
    by (simp_all add: frame_defs js_defs)
  have d: "sendDecodedPayload defaultParams"
    by (simp add: defaultParams_def)
  have one: "fst (parseMessage defaultParams 5000 Map.empty ?f) = Delivered ?m"
    by (simp add: parseMessage_def frame_defs js_defs table_defs message_defs
        decode_boot_def defaultParams_def)
  have two: "fst (parseMessage (defaultParams\<lparr>sendBootMessages := False\<rparr>) 5000 Map.empty ?f)
          = Dropped BootSuppressed"
    by (simp add: parseMessage_def frame_defs js_defs table_defs message_defs
        decode_boot_def defaultParams_def)
  from boot_delivery [OF d h, of 5000 Map.empty ?m] one
  have "sendBootMessages defaultParams" by simp
  with one two show ?thesis by simp
qed

theorem boot_delivery_counterexample:
  "fst (parseMessage (defaultParams\<lparr>sendBootMessages := False, sendDecodedPayload := False\<rparr>)
          5000 Map.empty ''26000000123401601d01CRCC'') =
     Delivered \<lparr>type = ''boot'', payload = None,
        sensorId = ''1234'', sequenceNumber = Some 0, timestamp = 5,
        numHops = None, maxHops = None, rawData = None\<rparr>"
  by (simp add: parseMessage_def frame_defs js_defs table_defs message_defs defaultParams_def)

section \<open>Truncated records\<close>

lemma registry_key_length:
  assumes "MESSAGE_TYPES mt = Some name"
  shows "length mt = 2"
proof -
  from assms have "(mt, name) \<in> set
     [(''30'', ''tempHumidity''), (''31'', ''switch''), (''32'', ''motion''),
      (''36'', ''rs485Request''), (''37'', ''rs485Response''), (''38'', ''rs485ChunkRequest''),
      (''39'', ''rs485ChunkResponse''), (''42'', ''rs485ChunkEnvelopeResponse''),
      (''44'', ''moisture''), (''45'', ''tempHumidityLight''), (''46'', ''tempHumidityAdc''),
      (''60'', ''boot''), (''61'', ''text''), (''70'', ''rs485Config'')]"
    unfolding MESSAGE_TYPES_def by (rule map_of_SomeD)
  then show ?thesis by (simp del: One_nat_def, elim disjE conjE) simp_all
qed

lemma short_type_code:
  assumes "length mt \<noteq> 2"
  shows "mt \<notin> set IGNORABLE_MESSAGE_TYPES" and "MESSAGE_TYPES mt = None"
proof -
  show "mt \<notin> set IGNORABLE_MESSAGE_TYPES"
    using assms by (auto simp: IGNORABLE_MESSAGE_TYPES_def)
  show "MESSAGE_TYPES mt = None"
    using assms registry_key_length [of mt] by (cases "MESSAGE_TYPES mt") auto
qed

lemma length_messageTypeOf:
  "length data < 4 + headerLength data * 2 \<Longrightarrow> length (messageTypeOf data) \<noteq> 2"
  by (simp add: messageTypeOf_def substring_def)

lemma deliver_never_throws: "deliver p now fullMessage data name \<noteq> Threw e"
  by (simp add: deliver_def Let_def split: sum.splits)

lemma parseMessage_throws_only_in_debugMode:
  "\<not> debugMode p \<Longrightarrow> fst (parseMessage p now c fullMessage) \<noteq> Threw e"
  by (simp add: parseMessage_def Let_def deliver_never_throws split: option.splits)

text \<open>
  C9, as amended. For every inbound frame record that is too short for the header length
  plus the fixed field offsets, the extraction out of range yields shorter or empty
  fields and, with \<open>debugMode\<close> off, processing raises no exception. A record that ends
  before the end of the type code is dropped under every configuration; a record that
  still holds a registered type code is decoded from the fields as they are and can be
  delivered.
\<close>

theorem truncated_record:
  assumes "tooShort (withoutCrc fullMessage)"
  shows "(\<not> debugMode p \<longrightarrow> (\<forall>e. fst (parseMessage p now c fullMessage) \<noteq> Threw e))
       \<and> (length (withoutCrc fullMessage) < 4 + headerLength (withoutCrc fullMessage) * 2 \<longrightarrow>
            (\<exists>reason. parseMessage p now c fullMessage = (Dropped reason, c)))"
proof (intro conjI impI allI)
  fix e
  assume "\<not> debugMode p"
  then show "fst (parseMessage p now c fullMessage) \<noteq> Threw e"
    by (rule parseMessage_throws_only_in_debugMode)
next
  assume "length (withoutCrc fullMessage) < 4 + headerLength (withoutCrc fullMessage) * 2"
  then have "length (messageTypeOf (withoutCrc fullMessage)) \<noteq> 2"
    by (rule length_messageTypeOf)
  then show "\<exists>reason. parseMessage p now c fullMessage = (Dropped reason, c)"
    using short_type_code [of "messageTypeOf (withoutCrc fullMessage)"]
    by (simp add: parseMessage_def Let_def)
qed

theorem truncated_record_witness:
  "fst (parseMessage defaultParams 5000 Map.empty ''260000001234013CRCC'') = Dropped UnknownType
   \<and> fst (parseMessage defaultParams 5000 Map.empty ''26000000123401321CRCC'') \<noteq>
       Threw (ReferenceError ''fullMesage'')"
proof -
  have short: "tooShort (withoutCrc ''260000001234013CRCC'')"
    "tooShort (withoutCrc ''26000000123401321CRCC'')"
    by (simp_all add: tooShort_def frame_defs js_defs)
  have cut: "length (withoutCrc ''260000001234013CRCC'')
               < 4 + headerLength (withoutCrc ''260000001234013CRCC'') * 2"
    by (simp add: frame_defs js_defs)
  have quiet: "\<not> debugMode defaultParams" by (simp add: defaultParams_def)
  have "fst (parseMessage defaultParams 5000 Map.empty ''260000001234013CRCC'')
          = Dropped UnknownType"
    by (simp add: parseMessage_def frame_defs js_defs table_defs)
  with truncated_record [OF short(2), of defaultParams 5000 Map.empty] quiet
       truncated_record [OF short(1), of defaultParams 5000 Map.empty] cut
  show ?thesis by simp
qed

theorem truncated_record_counterexample:
  "tooShort (withoutCrc ''26000000123401321CRCC'')
   \<and> fst (parseMessage defaultParams 5000 Map.empty ''26000000123401321CRCC'') =
       Delivered \<lparr>type = ''motion'',
          payload = Some [(''battery'', JNumber (Some 0.1)), (''motion'', JBool True)],
          sensorId = ''1234'', sequenceNumber = Some 0, timestamp = 5,
          numHops = None, maxHops = None, rawData = None\<rparr>"
  by (simp add: tooShort_def parseMessage_def frame_defs js_defs table_defs message_defs
      decode_motion_def defaultParams_def)

section \<open>The identity gate\<close>

lemma frame_record_is_no_reply:
  assumes "startsWith data ''>''"
  shows "\<not> startsWith data ''MR:''" and "data \<noteq> ''DP:Ok''" and "data \<noteq> ''SS:Ok''"
    and "\<not> startsWith (toLowerCase data) ''ver:contiki''"
    and "\<not> startsWith (toLowerCase data) ''ver:conectric-v''"
  using assms by (cases data; simp add: startsWith_def toLowerCase_def)+

lemma truthy_set: "truthy x \<Longrightarrow> x \<noteq> None"
  by (cases x) (simp_all add: truthy_def)

text \<open>
  C1. An inbound record that begins with \<open>>\<close> is handed to \<open>parseMessage\<close> only when
  \<open>macAddress\<close>, \<open>contikiVersion\<close> and \<open>conectricVersion\<close> are all set; while one of the
  three is unset, the record is not decoded, no callback is made and the state stays as
  it is.
\<close>

theorem frames_wait_for_identity:
  "(fst (onData p now g data) = Parsed result \<longrightarrow>
      startsWith data ''>'' \<and> macAddress g \<noteq> None \<and> contikiVersion g \<noteq> None
      \<and> conectricVersion g \<noteq> None)
   \<and> (startsWith data ''>''
        \<and> (macAddress g = None \<or> contikiVersion g = None \<or> conectricVersion g = None) \<longrightarrow>
      onData p now g data = (Unprocessed, g))"
proof (rule conjI; rule impI)
  assume "fst (onData p now g data) = Parsed result"
  then have "startsWith data ''>'' \<and> truthy (conectricVersion g) \<and> truthy (contikiVersion g)
               \<and> truthy (macAddress g)"
    by (auto simp: onData_def split: if_splits)
  then show "startsWith data ''>'' \<and> macAddress g \<noteq> None \<and> contikiVersion g \<noteq> None
      \<and> conectricVersion g \<noteq> None"
    by (simp add: truthy_set)
next
  assume a: "startsWith data ''>''
        \<and> (macAddress g = None \<or> contikiVersion g = None \<or> conectricVersion g = None)"
  then have "\<not> (truthy (conectricVersion g) \<and> truthy (contikiVersion g) \<and> truthy (macAddress g))"
    by (auto simp: truthy_def)
  with a frame_record_is_no_reply [of data] show "onData p now g data = (Unprocessed, g)"
    by (auto simp: onData_def)
qed


theorem frames_wait_for_identity_witness:
  "fst (onData defaultParams 5000 (initialGateway\<lparr>macAddress := Some ''1234''\<rparr>)
          ''>26000000123401601d01CRCC'') = Unprocessed
   \<and> fst (onData defaultParams 5000
            \<lparr>macAddress = Some ''1234'', contikiVersion = Some ''.0'',
               conectricVersion = Some ''2.0'', cache = Map.empty\<rparr>
            ''>26000000123401601d01CRCC'') =
       Parsed (Delivered \<lparr>type = ''boot'',
          payload = Some [(''battery'', JNumber (Some 2.9)),
                          (''resetCause'', JString ''externalReset'')],
          sensorId = ''1234'', sequenceNumber = Some 0, timestamp = 5,
          numHops = None, maxHops = None, rawData = None\<rparr>)"
proof -
  let ?g = "initialGateway\<lparr>macAddress := Some ''1234''\<rparr>"
  let ?r = "\<lparr>macAddress = Some ''1234'', contikiVersion = Some ''.0'',
               conectricVersion = Some ''2.0'', cache = Map.empty\<rparr>"
  let ?m = "\<lparr>type = ''boot'',
          payload = Some [(''battery'', JNumber (Some 2.9)),
                          (''resetCause'', JString ''externalReset'')],
          sensorId = ''1234'', sequenceNumber = Some 0, timestamp = 5,
          numHops = None, maxHops = None, rawData = None\<rparr>"
  have "startsWith ''>26000000123401601d01CRCC'' ''>''
        \<and> (macAddress ?g = None \<or> contikiVersion ?g = None \<or> conectricVersion ?g = None)"
    by (simp add: startsWith_def initialGateway_def)
  with frames_wait_for_identity [of defaultParams 5000 ?g "''>26000000123401601d01CRCC''"]
  have one: "fst (onData defaultParams 5000 ?g ''>26000000123401601d01CRCC'') = Unprocessed"
    by (simp add: initialGateway_def)
  have two: "fst (onData defaultParams 5000 ?r ''>26000000123401601d01CRCC'')
               = Parsed (Delivered ?m)"
    by (simp add: onData_def truthy_def parseMessage_def frame_defs js_defs table_defs
        message_defs decode_boot_def defaultParams_def)
  from frames_wait_for_identity [of defaultParams 5000 ?r "''>26000000123401601d01CRCC''"
         "Delivered ?m"] two
  have "macAddress ?r \<noteq> None" by simp
  with one two show ?thesis by simp
qed

lemma frames_after_device_loss:
  assumes "startsWith data ''>''"
  shows "onData p now (deviceLost g) data = (Unprocessed, deviceLost g)"
  using frame_record_is_no_reply [OF assms]
  by (simp add: onData_def deviceLost_def truthy_def)

lemma version_reply_in_capitals:
  "onData p now initialGateway ''VER:Contiki-3.x'' =
     (ContikiVersionFound, initialGateway\<lparr>contikiVersion := Some ''3.x''\<rparr>)"
  by (simp add: onData_def startsWith_def substringFrom_def toLowerCase_def char_of_def
      bit_Suc_0_iff)

section \<open>The bring-up sequence, end to end\<close>

text \<open>
  C6, as amended. After the bring-up records \<open>MR:1234\<close>, \<open>ver:contiki1.0\<close>,
  \<open>ver:conectric-v2.0\<close> and \<open>SS:Ok\<close>, the record \<open>>300030ff00001234000029xxxxCRCC\<close> is
  handed to \<open>parseMessage\<close>, which reads the header byte 0x30 as a standard header with
  simple payload and header length 16 (\<open>0x30 & 0x1F\<close>); the type code then lies beyond
  the end of the record, is empty and not in the registry, so the frame is dropped and
  no message is delivered. Before the bring-up records the same record is not handed to
  \<open>parseMessage\<close> at all.
\<close>

theorem end_to_end_example:
  "fst (run defaultParams initialGateway
          [Record 1000 ''MR:1234'', Record 2000 ''ver:contiki1.0'',
           Record 3000 ''ver:conectric-v2.0'', Record 4000 ''SS:Ok'',
           Record 5000 ''>300030ff00001234000029xxxxCRCC'']) =
     [MacAddressFound, ContikiVersionFound, ConectricVersionFound, SinkOk,
      Parsed (Dropped UnknownType)]
   \<and> headerLength (withoutCrc ''300030ff00001234000029xxxxCRCC'') = 16
   \<and> headerType (withoutCrc ''300030ff00001234000029xxxxCRCC'') = 0
   \<and> payloadType (withoutCrc ''300030ff00001234000029xxxxCRCC'') = 32
   \<and> messageTypeOf (withoutCrc ''300030ff00001234000029xxxxCRCC'') = []
   \<and> fst (run defaultParams initialGateway
            [Record 500 ''>300030ff00001234000029xxxxCRCC'']) = [Unprocessed]"
  by (simp add: bring_up_defs parseMessage_def frame_defs js_defs table_defs)

theorem end_to_end_example_counterexample:
  "headerLength (withoutCrc ''300030ff00001234000029xxxxCRCC'') \<noteq> 0
   \<and> length (callbacks (fst (run defaultParams initialGateway
          [Record 1000 ''MR:1234'', Record 2000 ''ver:contiki1.0'',
           Record 3000 ''ver:conectric-v2.0'', Record 4000 ''SS:Ok'',
           Record 5000 ''>300030ff00001234000029xxxxCRCC'']))) \<noteq> 1"
  by (simp add: bring_up_defs parseMessage_def frame_defs js_defs table_defs)

text \<open>
  With the header byte 0x26 (header length 6) the fields fall where the code reads them,
  and the bring-up followed by one frame gives one tempHumidity message.
\<close>

lemma end_to_end_with_header_length_6:
  "callbacks (fst (run defaultParams initialGateway
          [Record 1000 ''MR:1234'', Record 2000 ''ver:contiki1.0'',
           Record 3000 ''ver:conectric-v2.0'', Record 4000 ''SS:Ok'',
           Record 5000 ''>26000000123404301d80004000CRCC''])) =
     [\<lparr>type = ''tempHumidity'',
       payload = Some [(''battery'', JNumber (Some 2.9)),
                       (''temperature'', JNumber (Some 41.01)),
                       (''temperatureUnit'', JString ''C''),
                       (''humidity'', JNumber (Some 25.25))],
       sensorId = ''1234'', sequenceNumber = Some 0, timestamp = 5,
       numHops = None, maxHops = None, rawData = None\<rparr>]"
  by (simp add: bring_up_defs parseMessage_def frame_defs js_defs table_defs message_defs
      decode_tempHumidity_def calculateTemperature_8000 calculateHumidity_4000 defaultParams_def)

section \<open>Deduplication of bursts\<close>

lemma run_sweeps:
  "run p g (map Sweep sweeps @ es) = run p (g\<lparr>cache := foldl cleanExpired (cache g) sweeps\<rparr>) es"
  by (induction sweeps arbitrary: g) simp_all

lemma sweeps_absent: "c key = None \<Longrightarrow> foldl cleanExpired c sweeps key = None"
  by (induction sweeps arbitrary: c) (simp_all add: cleanExpired_def)

lemma sweeps_keep:
  "c key = Some expires \<Longrightarrow> \<forall>s\<in>set sweeps. s < expires \<Longrightarrow>
     foldl cleanExpired c sweeps key = Some expires"
  by (induction sweeps arbitrary: c) (simp_all add: cleanExpired_def)

lemma sweeps_remove:
  "c key = Some expires \<Longrightarrow> \<exists>s\<in>set sweeps. expires \<le> s \<Longrightarrow>
     foldl cleanExpired c sweeps key = None"
proof (induction sweeps arbitrary: c)
  case Nil
  then show ?case by simp
next
  case (Cons s sweeps)
  show ?case
  proof (cases "expires \<le> s")
    case True
    with Cons.prems(1) have "cleanExpired c s key = None"
      by (simp add: cleanExpired_def)
    then show ?thesis by (simp add: sweeps_absent)
  next
    case False
    with Cons.prems have "cleanExpired c s key = Some expires" "\<exists>s\<in>set sweeps. expires \<le> s"
      by (simp_all add: cleanExpired_def)
    then show ?thesis using Cons.IH by simp
  qed
qed

lemma newMessage_clock:
  "newMessage p t1 fullMessage data name =
     (newMessage p t0 fullMessage data name)
       \<lparr>timestamp := (if useMillisecondTimestamps p then t1 else t1 div 1000)\<rparr>"
  by (simp add: newMessage_def Let_def)

lemma decodePayload_clock:
  "decodePayload p name battery messageData (m\<lparr>timestamp := t\<rparr>) =
     map_sum id (\<lambda>m'. m'\<lparr>timestamp := t\<rparr>) (decodePayload p name battery messageData m)"
  by (simp add: decodePayload_def decoder_defs setPayload_def assignPayload_def Let_def)

lemma deliver_clock:
  assumes "deliver p t0 fullMessage data name = Delivered m"
  shows "deliver p t1 fullMessage data name =
           Delivered (m\<lparr>timestamp := (if useMillisecondTimestamps p then t1 else t1 div 1000)\<rparr>)"
proof (cases "sendDecodedPayload p")
  case False
  with assms show ?thesis
    by (auto simp: deliver_def Let_def newMessage_clock [of p t1 _ _ _ t0])
next
  case True
  with assms obtain m0 where
    "decodePayload p name (batteryOf data) (messageDataOf data)
       (newMessage p t0 fullMessage data name) = Inr m0" and "m0 = m"
    by (auto simp: deliver_def Let_def split: sum.splits)
  with True show ?thesis
    by (simp add: deliver_def Let_def newMessage_clock [of p t1 _ _ _ t0] decodePayload_clock)
qed


lemma parseMessage_Delivered:
  assumes "parseMessage p t c fullMessage = (Delivered m, c1)" and "deDuplicateBursts p"
  obtains name where "headerType (withoutCrc fullMessage) = 0"
    and "payloadType (withoutCrc fullMessage) = 32"
    and "MESSAGE_TYPES (messageTypeOf (withoutCrc fullMessage)) = Some name"
    and "\<not> cache_get c (cacheKeyOf (withoutCrc fullMessage))"
    and "deliver p t fullMessage (withoutCrc fullMessage) name = Delivered m"
    and "c1 = cache_set c t (cacheKeyOf (withoutCrc fullMessage))"
  using assms
  by (cases "MESSAGE_TYPES (messageTypeOf (withoutCrc fullMessage))")
     (auto simp: parseMessage_def Let_def split: if_splits)

lemma onData_Parsed:
  assumes "onData p t g record = (Parsed result, g1)"
  shows "startsWith record ''>''" and "truthy (conectricVersion g)"
    and "truthy (contikiVersion g)" and "truthy (macAddress g)"
    and "parseMessage p t (cache g) (substringFrom record 1) = (result, cache g1)"
    and "g1 = g\<lparr>cache := cache g1\<rparr>"
  using assms by (auto simp: onData_def split: if_splits prod.splits)

lemma onData_frame:
  assumes "startsWith record ''>''" and "truthy (conectricVersion g)"
    and "truthy (contikiVersion g)" and "truthy (macAddress g)"
    and "parseMessage p t (cache g) (substringFrom record 1) = (result, c)"
  shows "onData p t g record = (Parsed result, g\<lparr>cache := c\<rparr>)"
  using assms by (simp add: onData_def)

lemma run_two_records:
  assumes "onData p t0 g record = (Parsed (Delivered m), g1)"
      and "onData p t1 (g1\<lparr>cache := foldl cleanExpired (cache g1) sweeps\<rparr>) record
             = (Parsed result, g2)"
  shows "callbacks (fst (run p g (Record t0 record # map Sweep sweeps @ [Record t1 record])))
           = m # callbacks [Parsed result]"
  using assms by (cases result) (simp_all add: run_sweeps)

text \<open>
  C3, as amended. With \<open>deDuplicateBursts\<close> enabled, a frame whose fingerprint (source
  address, decimal sequence number, message data) is in the cache is dropped before
  delivery. So when a frame that is delivered on its first submission is submitted again,
  there is exactly one callback as long as no cleaning sweep has run 30 seconds or more
  after the first submission, in particular whenever the repeat comes within the 30
  seconds; once a sweep has run at or after the 30 seconds, the fingerprint is new again
  and the repeat gives a second callback, with the same message but for its timestamp.
  The timer sweeps every 3 seconds, so a repeat that comes after the 30 seconds and
  before the next sweep is still dropped.
\<close>

theorem duplicate_bursts:
  assumes "deDuplicateBursts p"
  shows "(headerType (withoutCrc fullMessage) = 0 \<and> payloadType (withoutCrc fullMessage) = 32
            \<and> MESSAGE_TYPES (messageTypeOf (withoutCrc fullMessage)) \<noteq> None
            \<and> cache_get c (cacheKeyOf (withoutCrc fullMessage)) \<longrightarrow>
          parseMessage p now c fullMessage = (Dropped DuplicateBurst, c))
       \<and> (onData p t0 g record = (Parsed (Delivered m), g1) \<longrightarrow>
            ((\<forall>s\<in>set sweeps. s < t0 + 30000) \<longrightarrow>
               callbacks (fst (run p g
                 (Record t0 record # map Sweep sweeps @ [Record t1 record]))) = [m])
          \<and> ((\<exists>s\<in>set sweeps. t0 + 30000 \<le> s) \<longrightarrow>
               callbacks (fst (run p g
                 (Record t0 record # map Sweep sweeps @ [Record t1 record]))) =
               [m, m\<lparr>timestamp :=
                      (if useMillisecondTimestamps p then t1 else t1 div 1000)\<rparr>]))"
proof (rule conjI; rule impI)
  assume "headerType (withoutCrc fullMessage) = 0 \<and> payloadType (withoutCrc fullMessage) = 32
            \<and> MESSAGE_TYPES (messageTypeOf (withoutCrc fullMessage)) \<noteq> None
            \<and> cache_get c (cacheKeyOf (withoutCrc fullMessage))"
  then show "parseMessage p now c fullMessage = (Dropped DuplicateBurst, c)"
    using assms by (auto simp: parseMessage_accepted)
next
  let ?frame = "substringFrom record 1"
  let ?key = "cacheKeyOf (withoutCrc ?frame)"
  let ?run = "run p g (Record t0 record # map Sweep sweeps @ [Record t1 record])"
  let ?g2 = "g1\<lparr>cache := foldl cleanExpired (cache g1) sweeps\<rparr>"
  assume first: "onData p t0 g record = (Parsed (Delivered m), g1)"
  note gate = onData_Parsed [OF first]
  from gate(5) assms obtain name where
        header: "headerType (withoutCrc ?frame) = 0" "payloadType (withoutCrc ?frame) = 32"
    and name: "MESSAGE_TYPES (messageTypeOf (withoutCrc ?frame)) = Some name"
    and delivered: "deliver p t0 ?frame (withoutCrc ?frame) name = Delivered m"
    and c1: "cache g1 = cache_set (cache g) t0 ?key"
    by (rule parseMessage_Delivered)
  from c1 have entry: "cache g1 ?key = Some (t0 + 30000)"
    by (simp add: cache_set_def)
  from gate(6) have identity: "truthy (conectricVersion ?g2)" "truthy (contikiVersion ?g2)"
    "truthy (macAddress ?g2)"
    using gate(2-4) by (metis gateway.select_convs gateway.surjective gateway.update_convs)+
  have second: "parseMessage p t1 (cache ?g2) ?frame =
          (if \<not> cache_get (cache ?g2) ?key
           then (deliver p t1 ?frame (withoutCrc ?frame) name, cache_set (cache ?g2) t1 ?key)
           else (Dropped DuplicateBurst, cache ?g2))"
    using assms parseMessage_accepted [OF header name, of p t1 "cache ?g2"] by simp
  show "((\<forall>s\<in>set sweeps. s < t0 + 30000) \<longrightarrow> callbacks (fst ?run) = [m])
      \<and> ((\<exists>s\<in>set sweeps. t0 + 30000 \<le> s) \<longrightarrow>
            callbacks (fst ?run) =
              [m, m\<lparr>timestamp := (if useMillisecondTimestamps p then t1 else t1 div 1000)\<rparr>])"
  proof (rule conjI; rule impI)
    assume "\<forall>s\<in>set sweeps. s < t0 + 30000"
    with entry have "cache ?g2 ?key = Some (t0 + 30000)"
      by (simp add: sweeps_keep)
    with second have "parseMessage p t1 (cache ?g2) ?frame = (Dropped DuplicateBurst, cache ?g2)"
      by (simp add: cache_get_def)
    from onData_frame [OF gate(1) identity this]
    show "callbacks (fst ?run) = [m]"
      using run_two_records [OF first] by simp
  next
    assume "\<exists>s\<in>set sweeps. t0 + 30000 \<le> s"
    with entry have "cache ?g2 ?key = None"
      by (simp add: sweeps_remove)
    with second deliver_clock [OF delivered, of t1]
    have "parseMessage p t1 (cache ?g2) ?frame =
            (Delivered (m\<lparr>timestamp :=
                (if useMillisecondTimestamps p then t1 else t1 div 1000)\<rparr>),
             cache_set (cache ?g2) t1 ?key)"
      by (simp add: cache_get_def)
    from onData_frame [OF gate(1) identity this]
    show "callbacks (fst ?run) =
            [m, m\<lparr>timestamp := (if useMillisecondTimestamps p then t1 else t1 div 1000)\<rparr>]"
      using run_two_records [OF first] by simp
  qed
qed


theorem duplicate_bursts_witness:
  "callbacks (fst (run defaultParams
       \<lparr>macAddress = Some ''1234'', contikiVersion = Some ''.0'',
          conectricVersion = Some ''2.0'', cache = Map.empty\<rparr>
       [Record 1000 ''>26000000123404301d80004000CRCC'', Sweep 3000, Sweep 6000,
        Record 7000 ''>26000000123404301d80004000CRCC''])) =
     [\<lparr>type = ''tempHumidity'',
       payload = Some [(''battery'', JNumber (Some 2.9)),
                       (''temperature'', JNumber (Some 41.01)),
                       (''temperatureUnit'', JString ''C''),
                       (''humidity'', JNumber (Some 25.25))],
       sensorId = ''1234'', sequenceNumber = Some 0, timestamp = 1,
       numHops = None, maxHops = None, rawData = None\<rparr>]
   \<and> callbacks (fst (run defaultParams
       \<lparr>macAddress = Some ''1234'', contikiVersion = Some ''.0'',
          conectricVersion = Some ''2.0'', cache = Map.empty\<rparr>
       [Record 1000 ''>26000000123404301d80004000CRCC'', Sweep 3000, Sweep 33000,
        Record 34000 ''>26000000123404301d80004000CRCC''])) =
     [\<lparr>type = ''tempHumidity'',
       payload = Some [(''battery'', JNumber (Some 2.9)),
                       (''temperature'', JNumber (Some 41.01)),
                       (''temperatureUnit'', JString ''C''),
                       (''humidity'', JNumber (Some 25.25))],
       sensorId = ''1234'', sequenceNumber = Some 0, timestamp = 1,
       numHops = None, maxHops = None, rawData = None\<rparr>,
      \<lparr>type = ''tempHumidity'',
       payload = Some [(''battery'', JNumber (Some 2.9)),
                       (''temperature'', JNumber (Some 41.01)),
                       (''temperatureUnit'', JString ''C''),
                       (''humidity'', JNumber (Some 25.25))],
       sensorId = ''1234'', sequenceNumber = Some 0, timestamp = 34,
       numHops = None, maxHops = None, rawData = None\<rparr>]
   \<and> fst (parseMessage defaultParams 2000 (Map.empty(''1234080004000'' \<mapsto> 31000))
          ''26000000123404301d80004000CRCC'') = Dropped DuplicateBurst"
proof -
  let ?g = "\<lparr>macAddress = Some ''1234'', contikiVersion = Some ''.0'',
          conectricVersion = Some ''2.0'', cache = Map.empty\<rparr>"
  let ?input = "''>26000000123404301d80004000CRCC''"
  let ?frame = "''26000000123404301d80004000CRCC''"
  let ?m = "\<lparr>type = ''tempHumidity'',
       payload = Some [(''battery'', JNumber (Some 2.9)),
                       (''temperature'', JNumber (Some 41.01)),
                       (''temperatureUnit'', JString ''C''),
                       (''humidity'', JNumber (Some 25.25))],
       sensorId = ''1234'', sequenceNumber = Some 0, timestamp = 1,
       numHops = None, maxHops = None, rawData = None\<rparr>"
  have dedup: "deDuplicateBursts defaultParams"
    by (simp add: defaultParams_def)
  have "fst (onData defaultParams 1000 ?g ?input) = Parsed (Delivered ?m)"
    by (simp add: onData_def truthy_def parseMessage_def frame_defs js_defs table_defs
        message_defs decode_tempHumidity_def calculateTemperature_8000 calculateHumidity_4000
        defaultParams_def)
  then obtain g1 where first: "onData defaultParams 1000 ?g ?input = (Parsed (Delivered ?m), g1)"
    by (cases "onData defaultParams 1000 ?g ?input") simp
  have seen: "headerType (withoutCrc ?frame) = 0 \<and> payloadType (withoutCrc ?frame) = 32
     \<and> MESSAGE_TYPES (messageTypeOf (withoutCrc ?frame)) \<noteq> None
     \<and> cache_get (Map.empty(''1234080004000'' \<mapsto> 31000)) (cacheKeyOf (withoutCrc ?frame))"
    by (simp add: frame_defs js_defs MESSAGE_TYPES_def cache_get_def)
  have stamp: "\<not> useMillisecondTimestamps defaultParams"
    by (simp add: defaultParams_def)
  from duplicate_bursts [OF dedup, of ?frame "Map.empty(''1234080004000'' \<mapsto> 31000)" 2000
         1000 ?g ?input ?m g1 "[3000, 6000]" 7000]
       duplicate_bursts [OF dedup, of ?frame "Map.empty(''1234080004000'' \<mapsto> 31000)" 2000
         1000 ?g ?input ?m g1 "[3000, 33000]" 34000]
       first seen stamp
  show ?thesis by simp
qed


theorem duplicate_bursts_counterexample:
  "callbacks (fst (run defaultParams
       \<lparr>macAddress = Some ''1234'', contikiVersion = Some ''.0'',
          conectricVersion = Some ''2.0'', cache = Map.empty\<rparr>
       [Record 1000 ''>26000000123404301d80004000CRCC'',
        Sweep 3000, Sweep 6000, Sweep 9000, Sweep 12000, Sweep 15000, Sweep 18000,
        Sweep 21000, Sweep 24000, Sweep 27000, Sweep 30000,
        Record 32000 ''>26000000123404301d80004000CRCC''])) =
     [\<lparr>type = ''tempHumidity'',
       payload = Some [(''battery'', JNumber (Some 2.9)),
                       (''temperature'', JNumber (Some 41.01)),
                       (''temperatureUnit'', JString ''C''),
                       (''humidity'', JNumber (Some 25.25))],
       sensorId = ''1234'', sequenceNumber = Some 0, timestamp = 1,
       numHops = None, maxHops = None, rawData = None\<rparr>]"
  by (simp add: onData_def truthy_def parseMessage_def frame_defs js_defs table_defs
      message_defs decode_tempHumidity_def calculateTemperature_8000 calculateHumidity_4000
      defaultParams_def cleanExpired_def)

end
